theory Spec2Isabelle
  imports Complex_Main "HOL-Library.Word"
begin

unbundle bit_operations_syntax

section \<open>The host values of RDParser.js\<close>

text \<open>
  The parser of \<^verbatim>\<open>src/RDParser.js\<close> computes with the numbers and booleans of its
  host language. A number is modelled as an extended real: the finite values are exact
  reals, so the rounding of a 64-bit float and the sign of zero are left out of the model;
  the two infinities and NaN are kept, since division and the constant \<^verbatim>\<open>Infinity\<close>
  reach them. \<^verbatim>\<open>undefined\<close> is the value read from a hole of the factorial cache.
\<close>

datatype jsnum = NaN | Fin real | PInf | NInf

datatype jsval = Undefined | Bool bool | Num jsnum

fun ToNumber :: "jsval \<Rightarrow> jsnum" where
  "ToNumber Undefined = NaN"
| "ToNumber (Bool b) = Fin (if b then 1 else 0)"
| "ToNumber (Num n) = n"

fun ToBoolean :: "jsval \<Rightarrow> bool" where
  "ToBoolean Undefined = False"
| "ToBoolean (Bool b) = b"
| "ToBoolean (Num NaN) = False"
| "ToBoolean (Num (Fin r)) = (r \<noteq> 0)"
| "ToBoolean (Num PInf) = True"
| "ToBoolean (Num NInf) = True"

fun is_neg :: "jsnum \<Rightarrow> bool" where
  "is_neg (Fin r) = (r < 0)"
| "is_neg NInf = True"
| "is_neg _ = False"

fun num_neg :: "jsnum \<Rightarrow> jsnum" where
  "num_neg NaN = NaN"
| "num_neg (Fin r) = Fin (- r)"
| "num_neg PInf = NInf"
| "num_neg NInf = PInf"

fun num_add :: "jsnum \<Rightarrow> jsnum \<Rightarrow> jsnum" where
  "num_add NaN _ = NaN"
| "num_add _ NaN = NaN"
| "num_add (Fin a) (Fin b) = Fin (a + b)"
| "num_add PInf NInf = NaN"
| "num_add NInf PInf = NaN"
| "num_add PInf _ = PInf"
| "num_add NInf _ = NInf"
| "num_add _ PInf = PInf"
| "num_add _ NInf = NInf"

definition num_sub :: "jsnum \<Rightarrow> jsnum \<Rightarrow> jsnum" where
  "num_sub a b = num_add a (num_neg b)"

fun num_mul :: "jsnum \<Rightarrow> jsnum \<Rightarrow> jsnum" where
  "num_mul NaN _ = NaN"
| "num_mul _ NaN = NaN"
| "num_mul (Fin a) (Fin b) = Fin (a * b)"
| "num_mul a b =
     (if a = Fin 0 \<or> b = Fin 0 then NaN else if is_neg a \<noteq> is_neg b then NInf else PInf)"

fun num_div :: "jsnum \<Rightarrow> jsnum \<Rightarrow> jsnum" where
  "num_div NaN _ = NaN"
| "num_div _ NaN = NaN"
| "num_div (Fin a) (Fin b) =
     (if b = 0 then (if a = 0 then NaN else if a < 0 then NInf else PInf) else Fin (a / b))"
| "num_div (Fin a) _ = Fin 0"
| "num_div a (Fin b) = (if is_neg a \<noteq> (b < 0) then NInf else PInf)"
| "num_div _ _ = NaN"

definition trunc :: "real \<Rightarrow> int" where
  "trunc r = (if 0 \<le> r then \<lfloor>r\<rfloor> else \<lceil>r\<rceil>)"

text \<open>The remainder \<^verbatim>\<open>%\<close> truncates: the result has the sign of the dividend.\<close>

fun num_mod :: "jsnum \<Rightarrow> jsnum \<Rightarrow> jsnum" where
  "num_mod NaN _ = NaN"
| "num_mod _ NaN = NaN"
| "num_mod PInf _ = NaN"
| "num_mod NInf _ = NaN"
| "num_mod (Fin a) (Fin b) = (if b = 0 then NaN else Fin (a - b * of_int (trunc (a / b))))"
| "num_mod (Fin a) _ = Fin a"

definition is_integer :: "real \<Rightarrow> bool" where
  "is_integer r = (r = of_int \<lfloor>r\<rfloor>)"

fun is_odd_integer :: "jsnum \<Rightarrow> bool" where
  "is_odd_integer (Fin y) = (is_integer y \<and> odd \<lfloor>y\<rfloor>)"
| "is_odd_integer _ = False"

text \<open>
  \<^verbatim>\<open>Math.pow\<close>, by the cases of the language standard. A finite base with a finite
  exponent is the exact power: by repeated multiplication when the exponent is an integer,
  the real power otherwise (NaN for a negative base).
\<close>

definition num_pow :: "jsnum \<Rightarrow> jsnum \<Rightarrow> jsnum" where
  "num_pow b e =
     (if e = NaN then NaN
      else if e = Fin 0 then Fin 1
      else case b of
        NaN \<Rightarrow> NaN
      | PInf \<Rightarrow> (if is_neg e then Fin 0 else PInf)
      | NInf \<Rightarrow> (if is_neg e then Fin 0 else if is_odd_integer e then NInf else PInf)
      | Fin x \<Rightarrow>
          (if x = 0 then (if is_neg e then PInf else Fin 0)
           else case e of
             PInf \<Rightarrow> (if \<bar>x\<bar> > 1 then PInf else if \<bar>x\<bar> = 1 then NaN else Fin 0)
           | NInf \<Rightarrow> (if \<bar>x\<bar> > 1 then Fin 0 else if \<bar>x\<bar> = 1 then NaN else PInf)
           | Fin y \<Rightarrow>
               (if is_integer y
                then (if 0 \<le> y then Fin (x ^ nat \<lfloor>y\<rfloor>) else Fin (1 / x ^ nat (- \<lfloor>y\<rfloor>)))
                else if x < 0 then NaN else Fin (x powr y))
           | NaN \<Rightarrow> NaN))"

text \<open>
  The abstract relational comparison: \<open>None\<close> is the standard's \<^verbatim>\<open>undefined\<close>, the
  answer when an operand is NaN.
\<close>

fun num_less :: "jsnum \<Rightarrow> jsnum \<Rightarrow> bool option" where
  "num_less NaN _ = None"
| "num_less _ NaN = None"
| "num_less (Fin a) (Fin b) = Some (a < b)"
| "num_less PInf _ = Some False"
| "num_less _ PInf = Some True"
| "num_less _ NInf = Some False"
| "num_less NInf _ = Some True"

definition js_lt :: "jsval \<Rightarrow> jsval \<Rightarrow> bool" where
  "js_lt a b = (num_less (ToNumber a) (ToNumber b) = Some True)"

definition js_gt :: "jsval \<Rightarrow> jsval \<Rightarrow> bool" where
  "js_gt a b = (num_less (ToNumber b) (ToNumber a) = Some True)"

definition js_le :: "jsval \<Rightarrow> jsval \<Rightarrow> bool" where
  "js_le a b = (num_less (ToNumber b) (ToNumber a) = Some False)"

definition js_ge :: "jsval \<Rightarrow> jsval \<Rightarrow> bool" where
  "js_ge a b = (num_less (ToNumber a) (ToNumber b) = Some False)"

definition num_eq :: "jsnum \<Rightarrow> jsnum \<Rightarrow> bool" where
  "num_eq a b = (a \<noteq> NaN \<and> a = b)"

text \<open>Strict equality \<^verbatim>\<open>===\<close>: values of different types are never equal.\<close>

fun js_strict_eq :: "jsval \<Rightarrow> jsval \<Rightarrow> bool" where
  "js_strict_eq Undefined Undefined = True"
| "js_strict_eq (Bool a) (Bool b) = (a = b)"
| "js_strict_eq (Num a) (Num b) = num_eq a b"
| "js_strict_eq _ _ = False"

text \<open>Loose equality \<^verbatim>\<open>==\<close>: a boolean is compared as the number it converts to.\<close>

fun js_loose_eq :: "jsval \<Rightarrow> jsval \<Rightarrow> bool" where
  "js_loose_eq Undefined Undefined = True"
| "js_loose_eq Undefined _ = False"
| "js_loose_eq _ Undefined = False"
| "js_loose_eq a b = num_eq (ToNumber a) (ToNumber b)"

text \<open>
  The 32-bit integer coercion of the bitwise and shift operators (and of \<^verbatim>\<open>a |= 0\<close>):
  NaN and the infinities become 0, a finite number is truncated towards zero and
  wrapped modulo \<open>2^32\<close>.
\<close>

fun ToInt32 :: "jsnum \<Rightarrow> 32 word" where
  "ToInt32 (Fin r) = word_of_int (trunc r)"
| "ToInt32 _ = 0"

definition of_int32 :: "32 word \<Rightarrow> jsval" where
  "of_int32 w = Num (Fin (of_int (sint w)))"

definition of_uint32 :: "32 word \<Rightarrow> jsval" where
  "of_uint32 w = Num (Fin (of_int (uint w)))"

definition shift_count :: "jsval \<Rightarrow> nat" where
  "shift_count b = unat (ToInt32 (ToNumber b) AND 31)"

definition js_add :: "jsval \<Rightarrow> jsval \<Rightarrow> jsval" where
  "js_add a b = Num (num_add (ToNumber a) (ToNumber b))"

definition js_sub :: "jsval \<Rightarrow> jsval \<Rightarrow> jsval" where
  "js_sub a b = Num (num_sub (ToNumber a) (ToNumber b))"

definition js_mul :: "jsval \<Rightarrow> jsval \<Rightarrow> jsval" where
  "js_mul a b = Num (num_mul (ToNumber a) (ToNumber b))"

definition js_div :: "jsval \<Rightarrow> jsval \<Rightarrow> jsval" where
  "js_div a b = Num (num_div (ToNumber a) (ToNumber b))"

definition js_mod :: "jsval \<Rightarrow> jsval \<Rightarrow> jsval" where
  "js_mod a b = Num (num_mod (ToNumber a) (ToNumber b))"

definition Math_pow :: "jsval \<Rightarrow> jsval \<Rightarrow> jsval" where
  "Math_pow a b = Num (num_pow (ToNumber a) (ToNumber b))"

definition js_bitor :: "jsval \<Rightarrow> jsval \<Rightarrow> jsval" where
  "js_bitor a b = of_int32 (ToInt32 (ToNumber a) OR ToInt32 (ToNumber b))"

definition js_bitxor :: "jsval \<Rightarrow> jsval \<Rightarrow> jsval" where
  "js_bitxor a b = of_int32 (ToInt32 (ToNumber a) XOR ToInt32 (ToNumber b))"

definition js_bitand :: "jsval \<Rightarrow> jsval \<Rightarrow> jsval" where
  "js_bitand a b = of_int32 (ToInt32 (ToNumber a) AND ToInt32 (ToNumber b))"

definition js_bitnot :: "jsval \<Rightarrow> jsval" where
  "js_bitnot a = of_int32 (NOT (ToInt32 (ToNumber a)))"

definition js_shl :: "jsval \<Rightarrow> jsval \<Rightarrow> jsval" where
  "js_shl a b = of_int32 (push_bit (shift_count b) (ToInt32 (ToNumber a)))"

definition js_sar :: "jsval \<Rightarrow> jsval \<Rightarrow> jsval" where
  "js_sar a b = of_int32 (signed_drop_bit (shift_count b) (ToInt32 (ToNumber a)))"

definition js_shr :: "jsval \<Rightarrow> jsval \<Rightarrow> jsval" where
  "js_shr a b = of_uint32 (drop_bit (shift_count b) (ToInt32 (ToNumber a)))"

definition js_or :: "jsval \<Rightarrow> jsval \<Rightarrow> jsval" where
  "js_or a b = (if ToBoolean a then a else b)"

definition js_and :: "jsval \<Rightarrow> jsval \<Rightarrow> jsval" where
  "js_and a b = (if ToBoolean a then b else a)"


section \<open>Bindings, the environment and the factorial cache\<close>

text \<open>
  A binding is an object with the two properties \<^verbatim>\<open>value\<close> and \<^verbatim>\<open>lvalue\<close>. An
  instance of the class \<^verbatim>\<open>Lvalue\<close> has \<^verbatim>\<open>lvalue: true\<close> and a setter for
  \<^verbatim>\<open>value\<close> that throws; the object literal \<^verbatim>\<open>{ value: 0, lvalue: false }\<close> that
  \<^verbatim>\<open>identifier\<close> creates is an ordinary writable object. Objects live on a heap, a
  list addressed by index, so that two references to one object are the same address.
\<close>

record binding =
  value' :: jsval
  lvalue :: bool

type_synonym addr = nat

record js_state =
  heap :: "binding list"
  variables :: "string \<rightharpoonup> addr"
  factorialCache :: "jsval option list"

datatype error =
    CannotAssign                      \<comment> \<open>\<^verbatim>\<open>Cannot assign to an lvalue\<close>\<close>
  | ExpectedNumberOrIdentifier nat    \<comment> \<open>\<^verbatim>\<open>Expected number or identifier @ pos\<close>\<close>
  | ExpectedClosingParenthesis nat    \<comment> \<open>\<^verbatim>\<open>Expected closing parenthesis @ pos\<close>\<close>
  | TooManyArguments string           \<comment> \<open>\<^verbatim>\<open>Operator ... requires too many arguments\<close>\<close>
  | UnexpectedCharacter nat           \<comment> \<open>\<^verbatim>\<open>Unexpected character @ pos\<close>\<close>
  | TypeError                         \<comment> \<open>raised by the host: a call of a non-function, a property of \<^verbatim>\<open>undefined\<close>\<close>

text \<open>An exception leaves the state as it was when it was thrown: nothing is rolled back.\<close>

type_synonym 'a result = "(error + 'a) \<times> js_state"

definition Lvalue_new :: "jsval \<Rightarrow> js_state \<Rightarrow> addr \<times> js_state" where
  "Lvalue_new v st =
     (length (heap st), st\<lparr>heap := heap st @ [\<lparr>value' = v, lvalue = True\<rparr>]\<rparr>)"

definition object_new :: "jsval \<Rightarrow> js_state \<Rightarrow> addr \<times> js_state" where
  "object_new v st =
     (length (heap st), st\<lparr>heap := heap st @ [\<lparr>value' = v, lvalue = False\<rparr>]\<rparr>)"

definition get_value :: "addr \<Rightarrow> js_state \<Rightarrow> jsval" where
  "get_value a st = value' (heap st ! a)"

definition set_value :: "addr \<Rightarrow> jsval \<Rightarrow> js_state \<Rightarrow> unit result" where
  "set_value a v st =
     (if lvalue (heap st ! a) then (Inl CannotAssign, st)
      else (Inr (), st\<lparr>heap := (heap st)[a := (heap st ! a)\<lparr>value' := v\<rparr>]\<rparr>))"

text \<open>
  The cache of \<^verbatim>\<open>factorial\<close> is an array that grows when it is written past its end;
  the elements skipped are holes, which read as \<^verbatim>\<open>undefined\<close>.
\<close>

definition array_get :: "jsval option list \<Rightarrow> nat \<Rightarrow> jsval" where
  "array_get xs i =
     (if i < length xs then (case xs ! i of None \<Rightarrow> Undefined | Some v \<Rightarrow> v) else Undefined)"

definition array_set :: "jsval option list \<Rightarrow> nat \<Rightarrow> jsval \<Rightarrow> jsval option list" where
  "array_set xs i v =
     (if i < length xs then xs[i := Some v]
      else xs @ replicate (i - length xs) None @ [Some v])"

definition int32 :: "jsval \<Rightarrow> int" where
  "int32 a = sint (ToInt32 (ToNumber a))"

lemma int32_of_int: "- (2 ^ 31) \<le> k \<Longrightarrow> k < 2 ^ 31 \<Longrightarrow> int32 (Num (Fin (of_int k))) = k"
  by (simp add: int32_def trunc_def sint_sbintrunc' signed_take_bit_int_eq_self)

function factorial :: "jsval \<Rightarrow> jsval option list \<Rightarrow> jsval \<times> jsval option list" where
  "factorial a0 cache =
     (let a = int32 a0 in
      if a < 1 then (Num (Fin 1), cache)
      else if int (length cache) > a then (array_get cache (nat a), cache)
      else (let (r, cache') = factorial (Num (Fin (of_int (a - 1)))) cache;
                v = js_mul (Num (Fin (of_int a))) r
            in (v, array_set cache' (nat a) v)))"
  by pat_completeness auto


lemma int32_range: "- (2 ^ 31) \<le> int32 a \<and> int32 a < 2 ^ 31"
  unfolding int32_def using sint_ge [of "ToInt32 (ToNumber a)"] sint_lt [of "ToInt32 (ToNumber a)"]
  by simp

termination factorial
proof (relation "measure (\<lambda>(a0, cache). nat (int32 a0))")
  show "wf (measure (\<lambda>(a0, cache). nat (int32 a0)))" by simp
next
  fix a0 :: jsval and cache :: "jsval option list" and x :: int
  assume x: "x = int32 a0" and "\<not> x < 1" "\<not> x < int (length cache)"
  have "int32 (Num (Fin (of_int (x - 1)))) = x - 1"
    using int32_range [of a0] x \<open>\<not> x < 1\<close> by (intro int32_of_int) auto
  then show "((Num (Fin (real_of_int (x - 1))), cache), a0, cache)
      \<in> measure (\<lambda>(a0, cache). nat (int32 a0))"
    using x \<open>\<not> x < 1\<close> by simp
qed

declare factorial.simps [simp del]


section \<open>The scanner: class Expression\<close>

text \<open>
  The text is a list of 8-bit characters, so the model reads Latin-1 input. A sticky regular
  expression is modelled by what \<^verbatim>\<open>exec\<close> does with it: given the text from
  \<^verbatim>\<open>lastIndex\<close> on, it answers the length of the match that starts there, or \<open>None\<close>.
\<close>

record Expression =
  text' :: string
  pos :: nat

type_synonym regex = "string \<Rightarrow> nat option"

definition is_space :: "char \<Rightarrow> bool" where
  "is_space c = (c \<in> set [CHR 0x09, CHR 0x0A, CHR 0x0B, CHR 0x0C, CHR 0x0D, CHR 0x20, CHR 0xA0])"

definition is_digit :: "char \<Rightarrow> bool" where
  "is_digit c = (c \<in> set ''0123456789'')"

definition is_ident_start :: "char \<Rightarrow> bool" where
  "is_ident_start c = (c \<in> set ''abcdefghijklmnopqrstuvwxyzABCDEFGHIJKLMNOPQRSTUVWXYZ_'')"

definition is_ident_char :: "char \<Rightarrow> bool" where
  "is_ident_char c = (is_ident_start c \<or> is_digit c)"

definition starts :: "string \<Rightarrow> string \<Rightarrow> bool" where
  "starts p s = (take (length p) s = p)"

text \<open>\<^verbatim>\<open>/\s+/y\<close>\<close>

definition regWhitespace :: regex where
  "regWhitespace s = (let n = length (takeWhile is_space s) in if n = 0 then None else Some n)"

definition skipWhitespace :: "Expression \<Rightarrow> Expression" where
  "skipWhitespace ex =
     (case regWhitespace (drop (pos ex) (text' ex)) of
        Some n \<Rightarrow> ex\<lparr>pos := pos ex + n\<rparr>
      | None \<Rightarrow> ex)"

definition Expression_new :: "string \<Rightarrow> Expression" where
  "Expression_new expression = skipWhitespace \<lparr>text' = expression, pos = 0\<rparr>"

definition accept :: "regex \<Rightarrow> Expression \<Rightarrow> (string \<times> Expression) option" where
  "accept regex ex =
     (case regex (drop (pos ex) (text' ex)) of
        Some n \<Rightarrow> Some (take n (drop (pos ex) (text' ex)), skipWhitespace (ex\<lparr>pos := pos ex + n\<rparr>))
      | None \<Rightarrow> None)"

definition remaining :: "Expression \<Rightarrow> string" where
  "remaining ex = (if pos ex < length (text' ex) then drop (pos ex) (text' ex) else [])"

text \<open>
  The operator patterns are alternations of literal tokens, some followed by a negative
  lookahead. Such a pattern is the list of its alternatives in the order the backtracking
  matcher tries them: a literal, and the literals that must not follow it. The first
  alternative that matches with none of its forbidden followers is the match.
\<close>

type_synonym alternatives = "(string \<times> string list) list"

fun match_alts :: "alternatives \<Rightarrow> regex" where
  "match_alts [] s = None"
| "match_alts ((p, bad) # alts) s =
     (if starts p s \<and> list_all (\<lambda>b. \<not> starts b (drop (length p) s)) bad then Some (length p)
      else match_alts alts s)"

text \<open>\<^verbatim>\<open>/[a-zA-Z_][a-zA-Z_\d]*/y\<close>\<close>

definition regIdent :: regex where
  "regIdent s =
     (case s of
        [] \<Rightarrow> None
      | c # cs \<Rightarrow> if is_ident_start c then Some (1 + length (takeWhile is_ident_char cs)) else None)"

text \<open>
  \<^verbatim>\<open>/\d+(\.\d+)?([eE]\d+)?/y\<close>: the digits, then a fraction if a dot and a digit follow,
  then an exponent if \<^verbatim>\<open>e\<close> or \<^verbatim>\<open>E\<close> and a digit follow.
\<close>

definition opt_part :: "(char \<Rightarrow> bool) \<Rightarrow> string \<Rightarrow> nat" where
  "opt_part mark s =
     (case s of
        [] \<Rightarrow> 0
      | c # cs \<Rightarrow> if mark c \<and> takeWhile is_digit cs \<noteq> [] then 1 + length (takeWhile is_digit cs) else 0)"

definition regNumber :: regex where
  "regNumber s =
     (let n = length (takeWhile is_digit s) in
      if n = 0 then None
      else let f = opt_part (\<lambda>c. c = CHR ''.'') (drop n s);
               e = opt_part (\<lambda>c. c = CHR ''e'' \<or> c = CHR ''E'') (drop (n + f) s)
           in Some (n + f + e))"

text \<open>\<^verbatim>\<open>/\+\+|--|\+|-|!|~/y\<close>, \<^verbatim>\<open>/(\+\+)|(--)/y\<close>, \<^verbatim>\<open>/\(/y\<close>, \<^verbatim>\<open>/\)/y\<close>\<close>

definition regPrefix :: regex where
  "regPrefix = match_alts [(''++'', []), (''--'', []), (''+'', []), (''-'', []), (''!'', []), (''~'', [])]"

definition regPostfix :: regex where
  "regPostfix = match_alts [(''++'', []), (''--'', [])]"

definition regOpenParenthesis :: regex where
  "regOpenParenthesis = match_alts [(''('', [])]"

definition regClosingParenthesis :: regex where
  "regClosingParenthesis = match_alts [('')'', [])]"

text \<open>\<^verbatim>\<open>/\s*;[;\s]*/y\<close>\<close>

definition regEOS :: regex where
  "regEOS s =
     (let n = length (takeWhile is_space s) in
      case drop n s of
        [] \<Rightarrow> None
      | c # cs \<Rightarrow>
          if c = CHR '';'' then Some (n + 1 + length (takeWhile (\<lambda>c. c = CHR '';'' \<or> is_space c) cs))
          else None)"

text \<open>
  \<^verbatim>\<open>Parser.prototype.rules\<close>, in the order of the \<^verbatim>\<open>push\<close> calls: the index is the
  level, and a lower level binds less tightly.
\<close>

definition rules :: "alternatives list" where
  "rules =
    [ [('','', [])],
      [(''='', []), (''+='', []), (''-='', []), (''**='', []), (''*='', []), (''/='', []),
       (''%='', []), (''<<='', []), (''>>>='', []), (''>>='', []), (''&='', []), (''^='', []),
       (''|='', [])],
      [(''||'', [])],
      [(''&&'', [])],
      [(''|'', [''|'', ''=''])],
      [(''^'', [''=''])],
      [(''&'', [''&'', ''=''])],
      [(''==='', []), (''=='', []), (''!=='', []), (''!='', [])],
      [(''>>>'', [''='']), (''>>'', [''='']), (''<<'', [''=''])],
      [(''<='', [''<'']), (''<'', [''<'']), (''>='', [''>'']), (''>'', [''>''])],
      [(''+'', [''+'', ''='']), (''-'', [''-'', ''=''])],
      [(''*'', [''*'', ''='']), (''/'', [''='']), (''%'', [''=''])],
      [(''**'', [''=''])],
      [(''!'', [''=''])] ]"

text \<open>
  \<^verbatim>\<open>parseFloat\<close> on a text that \<^verbatim>\<open>regNumber\<close> matched: the decimal number it
  denotes, exactly.
\<close>

definition digit_val :: "char \<Rightarrow> nat" where
  "digit_val c = of_char c - 48"

definition digits_val :: "string \<Rightarrow> nat" where
  "digits_val ds = foldl (\<lambda>n c. 10 * n + digit_val c) 0 ds"

definition parseFloat :: "string \<Rightarrow> jsval" where
  "parseFloat s =
     (let ip = takeWhile is_digit s;
          r1 = drop (length ip) s;
          fr = (case r1 of [] \<Rightarrow> [] | c # cs \<Rightarrow> if c = CHR ''.'' then takeWhile is_digit cs else []);
          r2 = (if fr = [] then r1 else drop (1 + length fr) r1);
          xp = (case r2 of [] \<Rightarrow> []
                | c # cs \<Rightarrow> if c = CHR ''e'' \<or> c = CHR ''E'' then takeWhile is_digit cs else [])
      in Num (Fin ((real (digits_val ip) + real (digits_val fr) / 10 ^ length fr)
                   * 10 ^ digits_val xp)))"


section \<open>The operator tables\<close>

text \<open>
  An entry of \<^verbatim>\<open>Parser.prototype.operations\<close>: the function \<^verbatim>\<open>exec\<close>, the number of
  parameters it names (its \<^verbatim>\<open>length\<close>, which \<^verbatim>\<open>operator\<close> switches on) and the flag
  \<^verbatim>\<open>right\<close> (absent, so false, on the three unary entries). A function called with fewer
  arguments than it reads a property of fails with a type error.
\<close>

record opdesc =
  exec_length :: nat
  right :: bool
  exec :: "addr list \<Rightarrow> js_state \<Rightarrow> addr result"

definition return_Lvalue :: "jsval \<Rightarrow> js_state \<Rightarrow> addr result" where
  "return_Lvalue v st = (let (r, st') = Lvalue_new v st in (Inr r, st'))"

text \<open>\<^verbatim>\<open>(a, b) => new Lvalue(f(a.value, b.value))\<close>\<close>

definition binary :: "(jsval \<Rightarrow> jsval \<Rightarrow> jsval) \<Rightarrow> addr list \<Rightarrow> js_state \<Rightarrow> addr result" where
  "binary f args st =
     (case args of
        a # b # _ \<Rightarrow> return_Lvalue (f (get_value a st) (get_value b st)) st
      | _ \<Rightarrow> (Inl TypeError, st))"

text \<open>\<^verbatim>\<open>(a, b) => (a.value = f(a.value, b.value), a)\<close>\<close>

definition assignment :: "(jsval \<Rightarrow> jsval \<Rightarrow> jsval) \<Rightarrow> addr list \<Rightarrow> js_state \<Rightarrow> addr result" where
  "assignment f args st =
     (case args of
        a # b # _ \<Rightarrow>
          (case set_value a (f (get_value a st) (get_value b st)) st of
             (Inl e, st') \<Rightarrow> (Inl e, st')
           | (Inr _, st') \<Rightarrow> (Inr a, st'))
      | _ \<Rightarrow> (Inl TypeError, st))"

text \<open>\<^verbatim>\<open>a => new Lvalue(a.value++)\<close>: the old value, as a number, is the result.\<close>

definition postfix_update :: "(jsnum \<Rightarrow> jsnum) \<Rightarrow> addr list \<Rightarrow> js_state \<Rightarrow> addr result" where
  "postfix_update f args st =
     (case args of
        a # _ \<Rightarrow>
          (let old = ToNumber (get_value a st) in
           case set_value a (Num (f old)) st of
             (Inl e, st') \<Rightarrow> (Inl e, st')
           | (Inr _, st') \<Rightarrow> return_Lvalue (Num old) st')
      | _ \<Rightarrow> (Inl TypeError, st))"

text \<open>\<^verbatim>\<open>a => new Lvalue(factorial(a.value))\<close>\<close>

definition factorial_exec :: "addr list \<Rightarrow> js_state \<Rightarrow> addr result" where
  "factorial_exec args st =
     (case args of
        a # _ \<Rightarrow>
          (let (v, cache') = factorial (get_value a st) (factorialCache st)
           in return_Lvalue v (st\<lparr>factorialCache := cache'\<rparr>))
      | _ \<Rightarrow> (Inl TypeError, st))"

text \<open>\<^verbatim>\<open>(a, b) => b\<close>\<close>

definition comma_exec :: "addr list \<Rightarrow> js_state \<Rightarrow> addr result" where
  "comma_exec args st = (case args of a # b # _ \<Rightarrow> (Inr b, st) | _ \<Rightarrow> (Inl TypeError, st))"

definition unary_op :: "(addr list \<Rightarrow> js_state \<Rightarrow> addr result) \<Rightarrow> opdesc" where
  "unary_op f = \<lparr>exec_length = 1, right = False, exec = f\<rparr>"

definition left_op :: "(addr list \<Rightarrow> js_state \<Rightarrow> addr result) \<Rightarrow> opdesc" where
  "left_op f = \<lparr>exec_length = 2, right = False, exec = f\<rparr>"

definition right_op :: "(addr list \<Rightarrow> js_state \<Rightarrow> addr result) \<Rightarrow> opdesc" where
  "right_op f = \<lparr>exec_length = 2, right = True, exec = f\<rparr>"

definition operations :: "(string \<times> opdesc) list" where
  "operations =
    [ (''++'', unary_op (postfix_update (\<lambda>n. num_add n (Fin 1)))),
      (''--'', unary_op (postfix_update (\<lambda>n. num_sub n (Fin 1)))),
      ('','', left_op comma_exec),
      (''+'', left_op (binary js_add)),
      (''-'', left_op (binary js_sub)),
      (''*'', left_op (binary js_mul)),
      (''/'', left_op (binary js_div)),
      (''%'', left_op (binary js_mod)),
      (''**'', right_op (binary Math_pow)),
      (''!'', unary_op factorial_exec),
      (''='', right_op (assignment (\<lambda>a b. b))),
      (''**='', right_op (assignment Math_pow)),
      (''*='', right_op (assignment js_mul)),
      (''+='', right_op (assignment js_add)),
      (''-='', right_op (assignment js_sub)),
      (''/='', right_op (assignment js_div)),
      (''%='', right_op (assignment js_mod)),
      (''>>>='', right_op (assignment js_shr)),
      (''>>='', right_op (assignment js_sar)),
      (''<<='', right_op (assignment js_shl)),
      (''&='', right_op (assignment js_bitand)),
      (''^='', right_op (assignment js_bitxor)),
      (''|='', right_op (assignment js_bitor)),
      (''=='', left_op (binary (\<lambda>a b. Bool (js_loose_eq a b)))),
      (''==='', left_op (binary (\<lambda>a b. Bool (js_strict_eq a b)))),
      (''!='', left_op (binary (\<lambda>a b. Bool (\<not> js_loose_eq a b)))),
      (''!=='', left_op (binary (\<lambda>a b. Bool (\<not> js_strict_eq a b)))),
      (''<='', left_op (binary (\<lambda>a b. Bool (js_le a b)))),
      (''<'', left_op (binary (\<lambda>a b. Bool (js_lt a b)))),
      (''>='', left_op (binary (\<lambda>a b. Bool (js_ge a b)))),
      (''>'', left_op (binary (\<lambda>a b. Bool (js_gt a b)))),
      (''||'', left_op (binary js_or)),
      (''&&'', left_op (binary js_and)),
      (''|'', left_op (binary js_bitor)),
      (''^'', left_op (binary js_bitxor)),
      (''&'', left_op (binary js_bitand)),
      (''>>>'', left_op (binary js_shr)),
      (''>>'', left_op (binary js_sar)),
      (''<<'', left_op (binary js_shl)) ]"

text \<open>
  \<^verbatim>\<open>Parser.prototype.prefixOps\<close>. \<^verbatim>\<open>++\<close> and \<^verbatim>\<open>--\<close> write the new value to their
  operand and wrap it; \<^verbatim>\<open>+\<close> wraps the operand's value as it is.
\<close>

definition prefix_update :: "(jsnum \<Rightarrow> jsnum) \<Rightarrow> addr \<Rightarrow> js_state \<Rightarrow> addr result" where
  "prefix_update f a st =
     (let new = Num (f (ToNumber (get_value a st))) in
      case set_value a new st of
        (Inl e, st') \<Rightarrow> (Inl e, st')
      | (Inr _, st') \<Rightarrow> return_Lvalue new st')"

definition prefix_pure :: "(jsval \<Rightarrow> jsval) \<Rightarrow> addr \<Rightarrow> js_state \<Rightarrow> addr result" where
  "prefix_pure f a st = return_Lvalue (f (get_value a st)) st"

definition prefixOps :: "(string \<times> (addr \<Rightarrow> js_state \<Rightarrow> addr result)) list" where
  "prefixOps =
    [ (''++'', prefix_update (\<lambda>n. num_add n (Fin 1))),
      (''--'', prefix_update (\<lambda>n. num_sub n (Fin 1))),
      (''+'', prefix_pure (\<lambda>v. v)),
      (''-'', prefix_pure (\<lambda>v. Num (num_neg (ToNumber v)))),
      (''~'', prefix_pure js_bitnot),
      (''!'', prefix_pure (\<lambda>v. Bool (\<not> ToBoolean v))) ]"

section \<open>The parser: class Parser\<close>

text \<open>
  The state a new parser starts in: the six constants of the constructor, each an
  \<^verbatim>\<open>Lvalue\<close>, and the empty factorial cache of the module.
\<close>

definition Parser_new :: js_state where
  "Parser_new =
     \<lparr>heap = [\<lparr>value' = Bool True, lvalue = True\<rparr>, \<lparr>value' = Bool False, lvalue = True\<rparr>,
              \<lparr>value' = Num PInf, lvalue = True\<rparr>, \<lparr>value' = Num PInf, lvalue = True\<rparr>,
              \<lparr>value' = Num (Fin pi), lvalue = True\<rparr>, \<lparr>value' = Num (Fin pi), lvalue = True\<rparr>],
      variables = [''true'' \<mapsto> 0, ''false'' \<mapsto> 1, ''Infinity'' \<mapsto> 2, ''infinity'' \<mapsto> 3,
                   ''PI'' \<mapsto> 4, ''pi'' \<mapsto> 5],
      factorialCache = []\<rparr>"

definition Parser_number :: "Expression \<Rightarrow> js_state \<Rightarrow> (addr \<times> Expression) option \<times> js_state" where
  "Parser_number ex st =
     (case accept regNumber ex of
        Some (ret, ex1) \<Rightarrow> (let (a, st1) = Lvalue_new (parseFloat ret) st in (Some (a, ex1), st1))
      | None \<Rightarrow> (None, st))"

text \<open>
  \<^verbatim>\<open>this.variables\<close> is an ordinary object used as a dictionary, and two names are not
  ordinary keys of it. Once the name \<^verbatim>\<open>hasOwnProperty\<close> is a key, the method the test
  calls is shadowed by a binding, and the call fails. The name \<^verbatim>\<open>__proto__\<close> is never a
  key: the assignment replaces the prototype of the dictionary by the new object, and the
  read gives that object back.
\<close>

definition Parser_identifier :: "Expression \<Rightarrow> js_state \<Rightarrow> (addr \<times> Expression) option result" where
  "Parser_identifier ex st =
     (case accept regIdent ex of
        Some (ret, ex1) \<Rightarrow>
          if variables st ''hasOwnProperty'' \<noteq> None then (Inl TypeError, st)
          else if ret = ''__proto__''
            then (let (a, st1) = object_new (Num (Fin 0)) st in (Inr (Some (a, ex1)), st1))
          else (case variables st ret of
                  None \<Rightarrow>
                    (let (a, st1) = object_new (Num (Fin 0)) st
                     in (Inr (Some (a, ex1)), st1\<lparr>variables := (variables st1)(ret \<mapsto> a)\<rparr>))
                | Some a \<Rightarrow> (Inr (Some (a, ex1)), st))
      | None \<Rightarrow> (Inr None, st))"

definition Parser_value :: "Expression \<Rightarrow> js_state \<Rightarrow> (addr \<times> Expression) result" where
  "Parser_value ex st =
     (case (case Parser_number ex st of
              (Some r, st1) \<Rightarrow> (Inr (Some r), st1)
            | (None, st1) \<Rightarrow> Parser_identifier ex st1) of
        (Inl e, st2) \<Rightarrow> (Inl e, st2)
      | (Inr None, st2) \<Rightarrow> (Inl (ExpectedNumberOrIdentifier (pos ex)), st2)
      | (Inr (Some (ret, ex1)), st2) \<Rightarrow>
          if \<not> lvalue (heap st2 ! ret) then
            (case accept regPostfix ex1 of
               Some (post, ex2) \<Rightarrow>
                 (case map_of operations post of
                    None \<Rightarrow> (Inl TypeError, st2)
                  | Some d \<Rightarrow>
                      (case exec d [ret] st2 of
                         (Inl e, st3) \<Rightarrow> (Inl e, st3)
                       | (Inr r, st3) \<Rightarrow> (Inr (r, ex2), st3)))
             | None \<Rightarrow> (Inr (ret, ex1), st2))
          else (Inr (ret, ex1), st2))"

function Parser_operator :: "nat \<Rightarrow> Expression \<Rightarrow> js_state \<Rightarrow> (addr \<times> Expression) result"
  and Parser_operator_while :: "nat \<Rightarrow> addr \<Rightarrow> Expression \<Rightarrow> js_state \<Rightarrow> (addr \<times> Expression) result"
  and Parser_term :: "Expression \<Rightarrow> js_state \<Rightarrow> (addr \<times> Expression) result"
  and Parser_prefix :: "Expression \<Rightarrow> js_state \<Rightarrow> (addr \<times> Expression) result"
  and Parser_parenthesis :: "Expression \<Rightarrow> js_state \<Rightarrow> (addr \<times> Expression) result"
  and Parser_expression :: "Expression \<Rightarrow> js_state \<Rightarrow> (addr \<times> Expression) result"
where
  "Parser_operator lvl ex st =
     (if lvl \<ge> length rules then Parser_term ex st
      else case Parser_operator (lvl + 1) ex st of
             (Inl e, st1) \<Rightarrow> (Inl e, st1)
           | (Inr (v, ex1), st1) \<Rightarrow> Parser_operator_while lvl v ex1 st1)"
| "Parser_operator_while lvl v ex st =
     (if lvl \<ge> length rules then (Inl TypeError, st)
      else case accept (match_alts (rules ! lvl)) ex of
        None \<Rightarrow> (Inr (v, ex), st)
      | Some (ret, ex1) \<Rightarrow>
          (case map_of operations ret of
             None \<Rightarrow> (Inl TypeError, st)
           | Some d \<Rightarrow>
               if exec_length d = 0 then
                 (case exec d [] st of
                    (Inl e, st1) \<Rightarrow> (Inl e, st1)
                  | (Inr v', st1) \<Rightarrow> Parser_operator_while lvl v' ex1 st1)
               else if exec_length d = 1 then
                 (case exec d [v] st of
                    (Inl e, st1) \<Rightarrow> (Inl e, st1)
                  | (Inr v', st1) \<Rightarrow> Parser_operator_while lvl v' ex1 st1)
               else if exec_length d = 2 then
                 (case Parser_operator (if right d then lvl else lvl + 1) ex1 st of
                    (Inl e, st1) \<Rightarrow> (Inl e, st1)
                  | (Inr (b, ex2), st1) \<Rightarrow>
                      (case exec d [v, b] st1 of
                         (Inl e, st2) \<Rightarrow> (Inl e, st2)
                       | (Inr v', st2) \<Rightarrow> Parser_operator_while lvl v' ex2 st2))
               else (Inl (TooManyArguments ret), st)))"
| "Parser_term ex st = Parser_prefix ex st"
| "Parser_prefix ex st =
     (case accept regPrefix ex of
        Some (ret, ex1) \<Rightarrow>
          (case Parser_prefix ex1 st of
             (Inl e, st1) \<Rightarrow> (Inl e, st1)
           | (Inr (a, ex2), st1) \<Rightarrow>
               (case map_of prefixOps ret of
                  None \<Rightarrow> (Inl TypeError, st1)
                | Some f \<Rightarrow>
                    (case f a st1 of
                       (Inl e, st2) \<Rightarrow> (Inl e, st2)
                     | (Inr r, st2) \<Rightarrow> (Inr (r, ex2), st2))))
      | None \<Rightarrow> Parser_parenthesis ex st)"
| "Parser_parenthesis ex st =
     (case accept regOpenParenthesis ex of
        Some (_, ex1) \<Rightarrow>
          (case Parser_expression ex1 st of
             (Inl e, st1) \<Rightarrow> (Inl e, st1)
           | (Inr (ret, ex2), st1) \<Rightarrow>
               (case accept regClosingParenthesis ex2 of
                  None \<Rightarrow> (Inl (ExpectedClosingParenthesis (pos ex2)), st1)
                | Some (_, ex3) \<Rightarrow> (Inr (ret, ex3), st1)))
      | None \<Rightarrow> Parser_value ex st)"
| "Parser_expression ex st = Parser_operator 0 ex st"
  by pat_completeness auto


subsection \<open>Termination: every successful match consumes input\<close>

definition unread :: "Expression \<Rightarrow> nat" where
  "unread ex = length (text' ex) - pos ex"

definition consuming :: "regex \<Rightarrow> bool" where
  "consuming r = (\<forall>s n. r s = Some n \<longrightarrow> 0 < n \<and> n \<le> length s)"

lemma starts_length: "starts p s \<Longrightarrow> length p \<le> length s"
proof -
  assume "starts p s"
  then have "length (take (length p) s) = length p" by (simp add: starts_def)
  then show ?thesis by simp
qed

lemma match_alts_consuming:
  "list_all (\<lambda>(p, bad). p \<noteq> []) alts \<Longrightarrow> consuming (match_alts alts)"
  unfolding consuming_def
  by (induction alts) (auto dest: starts_length split: if_splits)

lemma rules_consuming: "lvl < length rules \<Longrightarrow> consuming (match_alts (rules ! lvl))"
proof -
  have "list_all (\<lambda>alts. list_all (\<lambda>(p, bad). p \<noteq> []) alts) rules"
    by (simp add: rules_def)
  then show "lvl < length rules \<Longrightarrow> consuming (match_alts (rules ! lvl))"
    by (simp add: list_all_length match_alts_consuming)
qed

lemma regPrefix_consuming: "consuming regPrefix"
  unfolding regPrefix_def by (rule match_alts_consuming) simp

lemma regPostfix_consuming: "consuming regPostfix"
  unfolding regPostfix_def by (rule match_alts_consuming) simp

lemma regOpenParenthesis_consuming: "consuming regOpenParenthesis"
  unfolding regOpenParenthesis_def by (rule match_alts_consuming) simp

lemma regClosingParenthesis_consuming: "consuming regClosingParenthesis"
  unfolding regClosingParenthesis_def by (rule match_alts_consuming) simp

lemma length_takeWhile_drop: "n + length (takeWhile P (drop n s)) \<le> max n (length s)"
  using length_takeWhile_le [of P "drop n s"] by simp

lemma regIdent_consuming: "consuming regIdent"
  unfolding consuming_def regIdent_def
  by (auto split: list.splits if_splits simp: length_takeWhile_le le_imp_less_Suc)

lemma opt_part_le: "opt_part m s \<le> length s"
  unfolding opt_part_def using length_takeWhile_le [of is_digit]
  by (auto split: list.splits simp: Suc_le_eq le_imp_less_Suc)

lemma regNumber_consuming: "consuming regNumber"
  unfolding consuming_def
proof (intro allI impI)
  fix s n assume a: "regNumber s = Some n"
  define d where "d = length (takeWhile is_digit s)"
  define f where "f = opt_part (\<lambda>c. c = CHR ''.'') (drop d s)"
  define e where "e = opt_part (\<lambda>c. c = CHR ''e'' \<or> c = CHR ''E'') (drop (d + f) s)"
  from a have "d \<noteq> 0" and n: "n = d + f + e"
    by (auto simp: regNumber_def Let_def d_def f_def e_def split: if_splits)
  have "d \<le> length s" unfolding d_def by (rule length_takeWhile_le)
  moreover have "f \<le> length s - d" unfolding f_def using opt_part_le [of _ "drop d s"] by simp
  moreover have "e \<le> length s - (d + f)" unfolding e_def using opt_part_le [of _ "drop (d + f) s"] by simp
  ultimately show "0 < n \<and> n \<le> length s" using \<open>d \<noteq> 0\<close> n by simp
qed

lemma skipWhitespace_text [simp]: "text' (skipWhitespace ex) = text' ex"
  by (simp add: skipWhitespace_def split: option.splits)

lemma skipWhitespace_pos: "pos ex \<le> pos (skipWhitespace ex)"
  by (simp add: skipWhitespace_def split: option.splits)

lemma skipWhitespace_rem: "unread (skipWhitespace ex) \<le> unread ex"
  unfolding unread_def using skipWhitespace_pos [of ex] by simp

lemma accept_text: "accept r ex = Some (tok, ex1) \<Longrightarrow> text' ex1 = text' ex"
  by (auto simp: accept_def split: option.splits)

lemma accept_rem: "consuming r \<Longrightarrow> accept r ex = Some (tok, ex1) \<Longrightarrow> unread ex1 < unread ex"
proof -
  assume c: "consuming r" and a: "accept r ex = Some (tok, ex1)"
  then obtain n where n: "r (drop (pos ex) (text' ex)) = Some n"
    and ex1: "ex1 = skipWhitespace (ex\<lparr>pos := pos ex + n\<rparr>)"
    by (auto simp: accept_def split: option.splits)
  from c n have "0 < n" "n \<le> length (text' ex) - pos ex"
    unfolding consuming_def by fastforce+
  then have "unread (ex\<lparr>pos := pos ex + n\<rparr>) < unread ex"
    by (simp add: unread_def)
  with skipWhitespace_rem [of "ex\<lparr>pos := pos ex + n\<rparr>"] ex1 show ?thesis by simp
qed

lemma Parser_number_rem: "Parser_number ex st = (Some (a, ex1), st1) \<Longrightarrow> unread ex1 < unread ex"
  by (auto simp: Parser_number_def Lvalue_new_def dest: accept_rem [OF regNumber_consuming] split: option.splits)

lemma Parser_identifier_rem: "Parser_identifier ex st = (Inr (Some (a, ex1)), st1) \<Longrightarrow> unread ex1 < unread ex"
  by (auto simp: Parser_identifier_def object_new_def dest: accept_rem [OF regIdent_consuming] split: option.splits if_splits)

lemma Parser_value_rem: "Parser_value ex st = (Inr (a, ex1), st1) \<Longrightarrow> unread ex1 < unread ex"
  unfolding Parser_value_def
  by (auto split: option.splits if_splits prod.splits sum.splits
      dest!: Parser_number_rem Parser_identifier_rem accept_rem [OF regPostfix_consuming])



abbreviation (input) Parser_dom where
  "Parser_dom \<equiv> Parser_operator_Parser_operator_while_Parser_term_Parser_prefix_Parser_parenthesis_Parser_expression_dom"

definition advances :: "Expression \<Rightarrow> (addr \<times> Expression) result \<Rightarrow> bool" where
  "advances ex res = (case res of (Inr (r, ex'), st') \<Rightarrow> unread ex' \<le> unread ex | _ \<Rightarrow> True)"

lemma advances_Inl [simp]: "advances ex (Inl e, st)"
  by (simp add: advances_def)

lemma advances_Inr [simp]: "advances ex (Inr (r, ex'), st) = (unread ex' \<le> unread ex)"
  by (simp add: advances_def)

lemma advances_trans: "unread ex1 \<le> unread ex \<Longrightarrow> advances ex1 res \<Longrightarrow> advances ex res"
  by (auto simp: advances_def split: prod.splits sum.splits)

lemma Parser_advances_dom:
  "Parser_dom (Inl (Inl (lvl, ex, st))) \<Longrightarrow> advances ex (Parser_operator lvl ex st)"
  "Parser_dom (Inl (Inr (Inl (lvl, v, ex, st)))) \<Longrightarrow> advances ex (Parser_operator_while lvl v ex st)"
  "Parser_dom (Inl (Inr (Inr (ex, st)))) \<Longrightarrow> advances ex (Parser_term ex st)"
  "Parser_dom (Inr (Inl (ex, st))) \<Longrightarrow> advances ex (Parser_prefix ex st)"
  "Parser_dom (Inr (Inr (Inl (ex, st)))) \<Longrightarrow> advances ex (Parser_parenthesis ex st)"
  "Parser_dom (Inr (Inr (Inr (ex, st)))) \<Longrightarrow> advances ex (Parser_expression ex st)"
proof (induct rule: Parser_operator_Parser_operator_while_Parser_term_Parser_prefix_Parser_parenthesis_Parser_expression.pinduct)
  case (1 lvl ex st)
  show ?case
  proof (cases "length rules \<le> lvl")
    case True
    with 1(2) show ?thesis by (simp add: Parser_operator.psimps [OF 1(1)])
  next
    case False
    show ?thesis
    proof (cases "Parser_operator (lvl + 1) ex st")
      case (Pair x y)
      show ?thesis
      proof (cases x)
        case (Inl e)
        with False Pair show ?thesis by (simp add: Parser_operator.psimps [OF 1(1)])
      next
        case (Inr b)
        obtain v ex1 where b: "b = (v, ex1)" by (cases b)
        from 1(3) [OF False] Pair Inr b have le: "unread ex1 \<le> unread ex" by simp
        from 1(4) [OF False Pair [symmetric] Inr b [symmetric]]
        have "advances ex1 (Parser_operator_while lvl v ex1 y)" .
        with le have "advances ex (Parser_operator_while lvl v ex1 y)" by (rule advances_trans)
        with False Pair Inr b show ?thesis by (simp add: Parser_operator.psimps [OF 1(1)])
      qed
    qed
  qed
next
  case (2 lvl v ex st)
  show ?case
  proof (cases "length rules \<le> lvl")
    case True
    then show ?thesis by (simp add: Parser_operator_while.psimps [OF "2.hyps"(1)])
  next
    case False
    note lvl = False
    show ?thesis
    proof (cases "accept (match_alts (rules ! lvl)) ex")
      case None
      with lvl show ?thesis by (simp add: Parser_operator_while.psimps [OF "2.hyps"(1)])
    next
      case (Some x2)
      obtain ret ex1 where x2: "x2 = (ret, ex1)" by (cases x2)
      from lvl have "consuming (match_alts (rules ! lvl))" by (simp add: rules_consuming)
      from accept_rem [OF this Some [unfolded x2]] have lt: "unread ex1 < unread ex" .
      show ?thesis
      proof (cases "map_of operations ret")
        case None
        with lvl Some x2 show ?thesis by (simp add: Parser_operator_while.psimps [OF "2.hyps"(1)])
      next
        case (Some d)
        note d = Some
        consider "exec_length d = 0" | "exec_length d = 1" | "exec_length d = 2"
          | "exec_length d \<noteq> 0" "exec_length d \<noteq> 1" "exec_length d \<noteq> 2" by blast
        then show ?thesis
        proof cases
          case 1
          show ?thesis
          proof (cases "exec d [] st")
            case (Pair xa ya)
            show ?thesis
            proof (cases xa)
              case (Inl e)
              with lvl \<open>accept _ _ = Some x2\<close> x2 d 1 Pair show ?thesis
                by (simp add: Parser_operator_while.psimps [OF "2.hyps"(1)])
            next
              case (Inr b)
              from "2.hyps"(2) [OF lvl \<open>accept _ _ = Some x2\<close> x2 [symmetric] d 1 Pair [symmetric] Inr]
              have "advances ex1 (Parser_operator_while lvl b ex1 ya)" .
              then have "advances ex (Parser_operator_while lvl b ex1 ya)"
                by (rule advances_trans [rotated]) (use lt in simp)
              with lvl \<open>accept _ _ = Some x2\<close> x2 d 1 Pair Inr show ?thesis
                by (simp add: Parser_operator_while.psimps [OF "2.hyps"(1)])
            qed
          qed
        next
          case 2
          then have n0: "exec_length d \<noteq> 0" by simp
          show ?thesis
          proof (cases "exec d [v] st")
            case (Pair xa ya)
            show ?thesis
            proof (cases xa)
              case (Inl e)
              with lvl \<open>accept _ _ = Some x2\<close> x2 d 2 Pair show ?thesis
                by (simp add: Parser_operator_while.psimps [OF "2.hyps"(1)])
            next
              case (Inr b)
              from "2.hyps"(3) [OF lvl \<open>accept _ _ = Some x2\<close> x2 [symmetric] d n0 2 Pair [symmetric] Inr]
              have "advances ex1 (Parser_operator_while lvl b ex1 ya)" .
              then have "advances ex (Parser_operator_while lvl b ex1 ya)"
                by (rule advances_trans [rotated]) (use lt in simp)
              with lvl \<open>accept _ _ = Some x2\<close> x2 d 2 Pair Inr show ?thesis
                by (simp add: Parser_operator_while.psimps [OF "2.hyps"(1)])
            qed
          qed
        next
          case 3
          then have n0: "exec_length d \<noteq> 0" and n1: "exec_length d \<noteq> 1" by simp_all
          let ?l = "if right d then lvl else lvl + 1"
          show ?thesis
          proof (cases "Parser_operator ?l ex1 st")
            case (Pair xa ya)
            show ?thesis
            proof (cases xa)
              case (Inl e)
              with lvl \<open>accept _ _ = Some x2\<close> x2 d 3 Pair show ?thesis
                by (simp add: Parser_operator_while.psimps [OF "2.hyps"(1)])
            next
              case (Inr b)
              obtain xb ex2 where b: "b = (xb, ex2)" by (cases b)
              from "2.hyps"(4) [OF lvl \<open>accept _ _ = Some x2\<close> x2 [symmetric] d n0 n1 3] Pair Inr b
              have le2: "unread ex2 \<le> unread ex1" by simp
              show ?thesis
              proof (cases "exec d [v, xb] ya")
                case (Pair xc yc)
                note P2 = Pair
                show ?thesis
                proof (cases xc)
                  case (Inl e)
                  with lvl \<open>accept _ _ = Some x2\<close> x2 d 3 \<open>Parser_operator ?l ex1 st = (xa, ya)\<close> Inr b P2
                  show ?thesis
                    by (simp add: Parser_operator_while.psimps [OF "2.hyps"(1)])
                next
                  case (Inr ba)
                  from "2.hyps"(5) [OF lvl \<open>accept _ _ = Some x2\<close> x2 [symmetric] d n0 n1 3
                      \<open>Parser_operator ?l ex1 st = (xa, ya)\<close> [symmetric] \<open>xa = Inr b\<close> b [symmetric] P2 [symmetric] Inr]
                  have "advances ex2 (Parser_operator_while lvl ba ex2 yc)" .
                  then have "advances ex (Parser_operator_while lvl ba ex2 yc)"
                    by (rule advances_trans [rotated]) (use lt le2 in simp)
                  with lvl \<open>accept _ _ = Some x2\<close> x2 d 3 \<open>Parser_operator ?l ex1 st = (xa, ya)\<close> \<open>xa = Inr b\<close> b P2 Inr
                  show ?thesis
                    by (simp add: Parser_operator_while.psimps [OF "2.hyps"(1)])
                qed
              qed
            qed
          qed
        next
          case 4
          with lvl \<open>accept _ _ = Some x2\<close> x2 d show ?thesis
            by (simp add: Parser_operator_while.psimps [OF "2.hyps"(1)])
        qed
      qed
    qed
  qed
next
  case (3 ex st)
  from 3(2) show ?case by (simp add: Parser_term.psimps [OF 3(1)])
next
  case (4 ex st)
  note eq = Parser_prefix.psimps [OF 4(1)]
  show ?case
  proof (cases "accept regPrefix ex")
    case None
    with 4(2) show ?thesis by (simp add: eq)
  next
    case (Some x2)
    obtain ret ex1 where x2: "x2 = (ret, ex1)" by (cases x2)
    from accept_rem [OF regPrefix_consuming Some [unfolded x2]] have lt: "unread ex1 < unread ex" .
    from 4(3) [OF Some x2 [symmetric]] have IH: "advances ex1 (Parser_prefix ex1 st)" .
    show ?thesis
    proof (cases "Parser_prefix ex1 st")
      case (Pair x y)
      show ?thesis
      proof (cases x)
        case (Inl e)
        with Some x2 Pair show ?thesis by (simp add: eq)
      next
        case (Inr b)
        obtain a ex2 where b: "b = (a, ex2)" by (cases b)
        from IH Pair Inr b have "unread ex2 \<le> unread ex1" by simp
        with lt have "unread ex2 \<le> unread ex" by simp
        with Some x2 Pair Inr b show ?thesis
          by (simp add: eq split: option.splits prod.splits sum.splits)
      qed
    qed
  qed
next
  case (5 ex st)
  note eq = Parser_parenthesis.psimps [OF 5(1)]
  show ?case
  proof (cases "accept regOpenParenthesis ex")
    case None
    then show ?thesis
      by (auto simp: eq advances_def dest: Parser_value_rem split: prod.splits sum.splits)
  next
    case (Some x2)
    obtain ret ex1 where x2: "x2 = (ret, ex1)" by (cases x2)
    from accept_rem [OF regOpenParenthesis_consuming Some [unfolded x2]] have lt: "unread ex1 < unread ex" .
    from 5(2) [OF Some x2 [symmetric]] have IH: "advances ex1 (Parser_expression ex1 st)" .
    show ?thesis
    proof (cases "Parser_expression ex1 st")
      case (Pair x y)
      show ?thesis
      proof (cases x)
        case (Inl e)
        with Some x2 Pair show ?thesis by (simp add: eq)
      next
        case (Inr b)
        obtain a ex2 where b: "b = (a, ex2)" by (cases b)
        from IH Pair Inr b have le: "unread ex2 \<le> unread ex1" by simp
        show ?thesis
        proof (cases "accept regClosingParenthesis ex2")
          case None
          with \<open>accept regOpenParenthesis ex = Some x2\<close> x2 Pair Inr b show ?thesis by (simp add: eq)
        next
          case (Some x3)
          obtain t ex3 where x3: "x3 = (t, ex3)" by (cases x3)
          from accept_rem [OF regClosingParenthesis_consuming Some [unfolded x3]] have "unread ex3 < unread ex2" .
          with le lt have "unread ex3 \<le> unread ex" by simp
          with \<open>accept regOpenParenthesis ex = Some x2\<close> x2 Pair Inr b Some x3 show ?thesis by (simp add: eq)
        qed
      qed
    qed
  qed
next
  case (6 ex st)
  from 6(2) show ?case by (simp add: Parser_expression.psimps [OF 6(1)])
qed


lemma length_rules: "length rules = 14"
  by (simp add: rules_def)

lemma Parser_total: "All Parser_dom"
proof (rule "Parser_operator_Parser_operator_while_Parser_term_Parser_prefix_Parser_parenthesis_Parser_expression.termination" [of "inv_image (measure id <*lex*> measure id)
     (\<lambda>x. case x of
         Inl (Inl (lvl, ex, st)) \<Rightarrow> (unread ex, 4 + 2 * (14 - lvl))
       | Inl (Inr (Inl (lvl, v, ex, st))) \<Rightarrow> (unread ex, 3 + 2 * (14 - lvl))
       | Inl (Inr (Inr (ex, st))) \<Rightarrow> (unread ex, 2)
       | Inr (Inl (ex, st)) \<Rightarrow> (unread ex, 1)
       | Inr (Inr (Inl (ex, st))) \<Rightarrow> (unread ex, 0)
       | Inr (Inr (Inr (ex, st))) \<Rightarrow> (unread ex, 33))"], goal_cases)
  case 1
  show ?case by (intro wf_inv_image wf_lex_prod wf_measure)
next
  case (2 lvl ex st)
  then show ?case by simp
next
  case (3 lvl ex st)
  then show ?case by (simp add: length_rules)
next
  case (4 lvl ex st x y b xa ya)
  from Parser_advances_dom(1) [OF 4(5)] 4(2,3,4) have "unread ya \<le> unread ex"
    by (simp add: advances_def split: prod.splits sum.splits) 
  then show ?case by auto
next
  case (5 lvl v ex st x2 x y x2a xa ya b)
  then have "unread y < unread ex" using accept_rem [OF rules_consuming, of lvl ex x y] by simp
  then show ?case by simp
next
  case (6 lvl v ex st x2 x y x2a xa ya b)
  then have "unread y < unread ex" using accept_rem [OF rules_consuming, of lvl ex x y] by simp
  then show ?case by simp
next
  case (7 lvl v ex st x2 x y x2a)
  then have "unread y < unread ex" using accept_rem [OF rules_consuming, of lvl ex x y] by simp
  then show ?case by simp
next
  case (8 lvl v ex st x2 x y x2a xa ya b xb yb xc yc ba)
  then have lt: "unread y < unread ex" using accept_rem [OF rules_consuming, of lvl ex x y] by simp
  from Parser_advances_dom(1) [OF 8(13)] 8(8,9,10) have "unread yb \<le> unread y"
    by (simp add: advances_def split: prod.splits sum.splits) 
  with lt show ?case by simp
next
  case (9 ex st)
  show ?case by simp
next
  case (10 ex st)
  show ?case by simp
next
  case (11 ex st x2 x y)
  then have "unread y < unread ex" using accept_rem [OF regPrefix_consuming, of ex x y] by simp
  then show ?case by simp
next
  case (12 ex st x2 x y)
  then have "unread y < unread ex" using accept_rem [OF regOpenParenthesis_consuming, of ex x y] by simp
  then show ?case by simp
next
  case (13 ex st)
  show ?case by simp
qed




termination Parser_operator
  by (rule Parser_total)

declare Parser_operator.simps [simp del] Parser_operator_while.simps [simp del]
  Parser_prefix.simps [simp del] Parser_parenthesis.simps [simp del]



lemma Parser_operator_advances: "advances ex (Parser_operator lvl ex st)"
  by (rule Parser_advances_dom(1)) (rule Parser_total [THEN spec])

lemma Parser_expression_advances: "advances ex (Parser_expression ex st)"
  by (simp add: Parser_operator_advances)

lemma regEOS_consuming: "consuming regEOS"
  unfolding consuming_def
proof (intro allI impI)
  fix s n assume a: "regEOS s = Some n"
  define w where "w = length (takeWhile is_space s)"
  from a obtain c cs where d: "drop w s = c # cs"
    and n: "n = w + 1 + length (takeWhile (\<lambda>c. c = CHR '';'' \<or> is_space c) cs)"
    by (auto simp: regEOS_def Let_def w_def split: list.splits if_splits)
  have "length (drop w s) = Suc (length cs)" by (simp add: d)
  then have "w + 1 + length cs = length s" by simp
  moreover have "length (takeWhile (\<lambda>c. c = CHR '';'' \<or> is_space c) cs) \<le> length cs"
    by (rule length_takeWhile_le)
  ultimately show "0 < n \<and> n \<le> length s" using n by simp
qed

subsection \<open>The entry point\<close>

function evaluate_while :: "addr \<Rightarrow> Expression \<Rightarrow> js_state \<Rightarrow> addr result" where
  "evaluate_while ret ex st =
     (if remaining ex \<noteq> [] then
        (case accept regEOS ex of
           Some (_, ex1) \<Rightarrow>
             if remaining ex1 \<noteq> [] then
               (case Parser_expression ex1 st of
                  (Inl e, st1) \<Rightarrow> (Inl e, st1)
                | (Inr (ret', ex2), st1) \<Rightarrow> evaluate_while ret' ex2 st1)
             else evaluate_while ret ex1 st
         | None \<Rightarrow> (Inl (UnexpectedCharacter (pos ex)), st))
      else (Inr ret, st))"
  by pat_completeness auto
termination
proof (relation "measure (\<lambda>(ret, ex, st). unread ex)", goal_cases)
  case 1
  show ?case by simp
next
  case (2 ret ex st x2 x y xa ya b xb yb)
  from 2(2,3) have "unread y < unread ex"
    using accept_rem [OF regEOS_consuming, of ex x y] by simp
  moreover from Parser_expression_advances [of y st] 2(5,6,7) have "unread yb \<le> unread y"
    by (simp add: advances_def split: prod.splits sum.splits)
  ultimately show ?case by simp
next
  case (3 ret ex st x2 x y)
  then have "unread y < unread ex"
    using accept_rem [OF regEOS_consuming, of ex x y] by simp
  then show ?case by simp
qed

declare evaluate_while.simps [simp del]

definition evaluate :: "js_state \<Rightarrow> string \<Rightarrow> jsval result" where
  "evaluate st expression =
     (let ex = Expression_new expression in
      case Parser_expression ex st of
        (Inl e, st1) \<Rightarrow> (Inl e, st1)
      | (Inr (ret, ex1), st1) \<Rightarrow>
          (case evaluate_while ret ex1 st1 of
             (Inl e, st2) \<Rightarrow> (Inl e, st2)
           | (Inr ret', st2) \<Rightarrow> (Inr (get_value ret' st2), st2)))"


section \<open>Evaluating the parser symbolically\<close>

text \<open>
  The parser threads the state and stops at the first exception. \<open>bind\<close> names that
  pattern, so that the equations of the parser can be used as rewrite rules on a state that
  is not known: the nested case distinctions become one chain of steps.
\<close>

definition bind :: "'a result \<Rightarrow> ('a \<Rightarrow> js_state \<Rightarrow> 'b result) \<Rightarrow> 'b result" where
  "bind m f = (case m of (Inl e, s) \<Rightarrow> (Inl e, s) | (Inr a, s) \<Rightarrow> f a s)"

lemma bind_Inl [simp]: "bind (Inl e, s) f = (Inl e, s)"
  by (simp add: bind_def)

lemma bind_Inr [simp]: "bind (Inr a, s) f = f a s"
  by (simp add: bind_def)

lemma bind_assoc [simp]: "bind (bind m f) g = bind m (\<lambda>a s. bind (f a s) g)"
  by (simp add: bind_def split: prod.splits sum.splits)

lemma Parser_operator_bind:
  "Parser_operator lvl ex st =
     (if lvl \<ge> length rules then Parser_prefix ex st
      else bind (Parser_operator (lvl + 1) ex st) (\<lambda>(v, ex1). Parser_operator_while lvl v ex1))"
  by (subst Parser_operator.simps) (simp add: bind_def split: prod.splits sum.splits)

lemma Parser_operator_while_bind:
  "Parser_operator_while lvl v ex st =
     (if lvl \<ge> length rules then (Inl TypeError, st)
      else case accept (match_alts (rules ! lvl)) ex of
        None \<Rightarrow> (Inr (v, ex), st)
      | Some (ret, ex1) \<Rightarrow>
          (case map_of operations ret of
             None \<Rightarrow> (Inl TypeError, st)
           | Some d \<Rightarrow>
               if exec_length d = 0 then bind (exec d [] st) (\<lambda>v'. Parser_operator_while lvl v' ex1)
               else if exec_length d = 1 then bind (exec d [v] st) (\<lambda>v'. Parser_operator_while lvl v' ex1)
               else if exec_length d = 2 then
                 bind (Parser_operator (if right d then lvl else lvl + 1) ex1 st)
                   (\<lambda>(b, ex2) st1. bind (exec d [v, b] st1) (\<lambda>v'. Parser_operator_while lvl v' ex2))
               else (Inl (TooManyArguments ret), st)))"
  by (subst Parser_operator_while.simps) (simp add: bind_def split: prod.splits sum.splits option.splits)

lemma Parser_prefix_bind:
  "Parser_prefix ex st =
     (case accept regPrefix ex of
        Some (ret, ex1) \<Rightarrow>
          bind (Parser_prefix ex1 st)
            (\<lambda>(a, ex2) st1. case map_of prefixOps ret of
                None \<Rightarrow> (Inl TypeError, st1)
              | Some f \<Rightarrow> bind (f a st1) (\<lambda>r. Pair (Inr (r, ex2))))
      | None \<Rightarrow> Parser_parenthesis ex st)"
  by (subst Parser_prefix.simps) (simp add: bind_def split: prod.splits sum.splits option.splits)

lemma Parser_parenthesis_bind:
  "Parser_parenthesis ex st =
     (case accept regOpenParenthesis ex of
        Some (t, ex1) \<Rightarrow>
          bind (Parser_operator 0 ex1 st)
            (\<lambda>(ret, ex2) st1. case accept regClosingParenthesis ex2 of
                None \<Rightarrow> (Inl (ExpectedClosingParenthesis (pos ex2)), st1)
              | Some (t', ex3) \<Rightarrow> (Inr (ret, ex3), st1))
      | None \<Rightarrow> Parser_value ex st)"
  by (subst Parser_parenthesis.simps) (simp add: bind_def split: prod.splits sum.splits option.splits)

lemma evaluate_while_bind:
  "evaluate_while ret ex st =
     (if remaining ex \<noteq> [] then
        (case accept regEOS ex of
           Some (t, ex1) \<Rightarrow>
             if remaining ex1 \<noteq> [] then
               bind (Parser_operator 0 ex1 st) (\<lambda>(ret', ex2). evaluate_while ret' ex2)
             else evaluate_while ret ex1 st
         | None \<Rightarrow> (Inl (UnexpectedCharacter (pos ex)), st))
      else (Inr ret, st))"
  by (subst evaluate_while.simps) (simp add: bind_def split: prod.splits sum.splits option.splits)

lemma evaluate_bind:
  "evaluate st expression =
     bind (Parser_operator 0 (Expression_new expression) st)
       (\<lambda>(ret, ex1) st1. bind (evaluate_while ret ex1 st1) (\<lambda>ret' st2. (Inr (get_value ret' st2), st2)))"
  by (simp add: evaluate_def bind_def split: prod.splits sum.splits)

lemmas parse_binds = evaluate_bind evaluate_while_bind Parser_operator_bind Parser_operator_while_bind
  Parser_prefix_bind Parser_parenthesis_bind

definition lookup :: "string \<Rightarrow> js_state \<Rightarrow> addr result" where
  "lookup name st =
     (if variables st ''hasOwnProperty'' \<noteq> None then (Inl TypeError, st)
      else if name = ''__proto__''
        then (let (a, st1) = object_new (Num (Fin 0)) st in (Inr a, st1))
      else (case variables st name of
              None \<Rightarrow>
                (let (a, st1) = object_new (Num (Fin 0)) st
                 in (Inr a, st1\<lparr>variables := (variables st1)(name \<mapsto> a)\<rparr>))
            | Some a \<Rightarrow> (Inr a, st)))"

lemma Parser_value_identifier:
  "accept regNumber ex = None \<Longrightarrow> accept regIdent ex = Some (name, ex1) \<Longrightarrow>
   accept regPostfix ex1 = None \<Longrightarrow>
   Parser_value ex st = bind (lookup name st) (\<lambda>a. Pair (Inr (a, ex1)))"
  by (simp add: Parser_value_def Parser_number_def Parser_identifier_def lookup_def object_new_def
      split: option.splits)



lemma rules_nth:
    "rules ! 0 = [('','', [])]"
    "rules ! (Suc 0) = [(''='', []), (''+='', []), (''-='', []), (''**='', []), (''*='', []), (''/='', []), (''%='', []), (''<<='', []), (''>>>='', []), (''>>='', []), (''&='', []), (''^='', []), (''|='', [])]"
    "rules ! (Suc (Suc 0)) = [(''||'', [])]"
    "rules ! (Suc (Suc (Suc 0))) = [(''&&'', [])]"
    "rules ! (Suc (Suc (Suc (Suc 0)))) = [(''|'', [''|'', ''=''])]"
    "rules ! (Suc (Suc (Suc (Suc (Suc 0))))) = [(''^'', [''=''])]"
    "rules ! (Suc (Suc (Suc (Suc (Suc (Suc 0)))))) = [(''&'', [''&'', ''=''])]"
    "rules ! (Suc (Suc (Suc (Suc (Suc (Suc (Suc 0))))))) = [(''==='', []), (''=='', []), (''!=='', []), (''!='', [])]"
    "rules ! (Suc (Suc (Suc (Suc (Suc (Suc (Suc (Suc 0)))))))) = [(''>>>'', [''='']), (''>>'', [''='']), (''<<'', [''=''])]"
    "rules ! (Suc (Suc (Suc (Suc (Suc (Suc (Suc (Suc (Suc 0))))))))) = [(''<='', [''<'']), (''<'', [''<'']), (''>='', [''>'']), (''>'', [''>''])]"
    "rules ! (Suc (Suc (Suc (Suc (Suc (Suc (Suc (Suc (Suc (Suc 0)))))))))) = [(''+'', [''+'', ''='']), (''-'', [''-'', ''=''])]"
    "rules ! (Suc (Suc (Suc (Suc (Suc (Suc (Suc (Suc (Suc (Suc (Suc 0))))))))))) = [(''*'', [''*'', ''='']), (''/'', [''='']), (''%'', [''=''])]"
    "rules ! (Suc (Suc (Suc (Suc (Suc (Suc (Suc (Suc (Suc (Suc (Suc (Suc 0)))))))))))) = [(''**'', [''=''])]"
    "rules ! (Suc (Suc (Suc (Suc (Suc (Suc (Suc (Suc (Suc (Suc (Suc (Suc (Suc 0))))))))))))) = [(''!'', [''=''])]"
  by (simp_all add: rules_def)

lemma operations_lookup:
    "map_of operations ''++'' = Some (unary_op (postfix_update (\<lambda>n. num_add n (Fin 1))))"
    "map_of operations ''--'' = Some (unary_op (postfix_update (\<lambda>n. num_sub n (Fin 1))))"
    "map_of operations '','' = Some (left_op comma_exec)"
    "map_of operations ''+'' = Some (left_op (binary js_add))"
    "map_of operations ''-'' = Some (left_op (binary js_sub))"
    "map_of operations ''*'' = Some (left_op (binary js_mul))"
    "map_of operations ''/'' = Some (left_op (binary js_div))"
    "map_of operations ''%'' = Some (left_op (binary js_mod))"
    "map_of operations ''**'' = Some (right_op (binary Math_pow))"
    "map_of operations ''!'' = Some (unary_op factorial_exec)"
    "map_of operations ''='' = Some (right_op (assignment (\<lambda>a b. b)))"
    "map_of operations ''**='' = Some (right_op (assignment Math_pow))"
    "map_of operations ''*='' = Some (right_op (assignment js_mul))"
    "map_of operations ''+='' = Some (right_op (assignment js_add))"
    "map_of operations ''-='' = Some (right_op (assignment js_sub))"
    "map_of operations ''/='' = Some (right_op (assignment js_div))"
    "map_of operations ''%='' = Some (right_op (assignment js_mod))"
    "map_of operations ''>>>='' = Some (right_op (assignment js_shr))"
    "map_of operations ''>>='' = Some (right_op (assignment js_sar))"
    "map_of operations ''<<='' = Some (right_op (assignment js_shl))"
    "map_of operations ''&='' = Some (right_op (assignment js_bitand))"
    "map_of operations ''^='' = Some (right_op (assignment js_bitxor))"
    "map_of operations ''|='' = Some (right_op (assignment js_bitor))"
    "map_of operations ''=='' = Some (left_op (binary (\<lambda>a b. Bool (js_loose_eq a b))))"
    "map_of operations ''==='' = Some (left_op (binary (\<lambda>a b. Bool (js_strict_eq a b))))"
    "map_of operations ''!='' = Some (left_op (binary (\<lambda>a b. Bool (\<not> js_loose_eq a b))))"
    "map_of operations ''!=='' = Some (left_op (binary (\<lambda>a b. Bool (\<not> js_strict_eq a b))))"
    "map_of operations ''<='' = Some (left_op (binary (\<lambda>a b. Bool (js_le a b))))"
    "map_of operations ''<'' = Some (left_op (binary (\<lambda>a b. Bool (js_lt a b))))"
    "map_of operations ''>='' = Some (left_op (binary (\<lambda>a b. Bool (js_ge a b))))"
    "map_of operations ''>'' = Some (left_op (binary (\<lambda>a b. Bool (js_gt a b))))"
    "map_of operations ''||'' = Some (left_op (binary js_or))"
    "map_of operations ''&&'' = Some (left_op (binary js_and))"
    "map_of operations ''|'' = Some (left_op (binary js_bitor))"
    "map_of operations ''^'' = Some (left_op (binary js_bitxor))"
    "map_of operations ''&'' = Some (left_op (binary js_bitand))"
    "map_of operations ''>>>'' = Some (left_op (binary js_shr))"
    "map_of operations ''>>'' = Some (left_op (binary js_sar))"
    "map_of operations ''<<'' = Some (left_op (binary js_shl))"
  by (simp_all add: operations_def)

lemma prefixOps_lookup:
    "map_of prefixOps ''++'' = Some (prefix_update (\<lambda>n. num_add n (Fin 1)))"
    "map_of prefixOps ''--'' = Some (prefix_update (\<lambda>n. num_sub n (Fin 1)))"
    "map_of prefixOps ''+'' = Some (prefix_pure (\<lambda>v. v))"
    "map_of prefixOps ''-'' = Some (prefix_pure (\<lambda>v. Num (num_neg (ToNumber v))))"
    "map_of prefixOps ''~'' = Some (prefix_pure js_bitnot)"
    "map_of prefixOps ''!'' = Some (prefix_pure (\<lambda>v. Bool (\<not> ToBoolean v)))"
  by (simp_all add: prefixOps_def)

lemmas scan_simps = Expression_new_def skipWhitespace_def regWhitespace_def accept_def remaining_def
  is_space_def is_digit_def is_ident_start_def is_ident_char_def starts_def regIdent_def opt_part_def
  regNumber_def regPrefix_def regPostfix_def regOpenParenthesis_def regClosingParenthesis_def regEOS_def
  digit_val_def digits_val_def parseFloat_def Let_def

lemmas table_simps = length_rules rules_nth operations_lookup prefixOps_lookup unary_op_def left_op_def right_op_def

lemmas exec_simps = binary_def assignment_def
  postfix_update_def factorial_exec_def comma_exec_def prefix_update_def prefix_pure_def return_Lvalue_def
  Lvalue_new_def object_new_def get_value_def set_value_def



lemmas value_simps = Parser_value_def Parser_number_def Parser_identifier_def Parser_new_def

lemmas js_simps = js_add_def js_sub_def js_mul_def js_div_def js_mod_def Math_pow_def num_pow_def
  is_integer_def js_lt_def js_gt_def js_le_def js_ge_def js_shl_def js_sar_def js_shr_def of_int32_def
  of_uint32_def shift_count_def trunc_def js_or_def js_and_def num_sub_def num_eq_def
  js_bitor_def js_bitand_def js_bitxor_def js_bitnot_def

text \<open>
  Two sets of rewrite rules: \<open>concrete\<close> runs the parser on a text from a state that is
  written out; \<open>symbolic\<close> runs it on a text whose operands are identifiers, from any state.
\<close>

lemmas concrete = scan_simps table_simps exec_simps parse_binds value_simps js_simps

lemmas symbolic = scan_simps table_simps exec_simps parse_binds Parser_value_identifier

section \<open>Precedence of shifts and comparisons\<close>

lemma shift_relational_1:
  "evaluate st ''a << b < c'' = evaluate st ''a << (b < c)''"
  "evaluate st ''a < b << c'' = evaluate st ''(a < b) << c''"
  by (simp_all add: symbolic)

lemma shift_relational_2:
  "evaluate st ''a << b <= c'' = evaluate st ''a << (b <= c)''"
  "evaluate st ''a <= b << c'' = evaluate st ''(a <= b) << c''"
  by (simp_all add: symbolic)

lemma shift_relational_3:
  "evaluate st ''a << b > c'' = evaluate st ''a << (b > c)''"
  "evaluate st ''a > b << c'' = evaluate st ''(a > b) << c''"
  by (simp_all add: symbolic)

lemma shift_relational_4:
  "evaluate st ''a << b >= c'' = evaluate st ''a << (b >= c)''"
  "evaluate st ''a >= b << c'' = evaluate st ''(a >= b) << c''"
  by (simp_all add: symbolic)

lemma shift_relational_5:
  "evaluate st ''a >> b < c'' = evaluate st ''a >> (b < c)''"
  "evaluate st ''a < b >> c'' = evaluate st ''(a < b) >> c''"
  by (simp_all add: symbolic)

lemma shift_relational_6:
  "evaluate st ''a >> b <= c'' = evaluate st ''a >> (b <= c)''"
  "evaluate st ''a <= b >> c'' = evaluate st ''(a <= b) >> c''"
  by (simp_all add: symbolic)

lemma shift_relational_7:
  "evaluate st ''a >> b > c'' = evaluate st ''a >> (b > c)''"
  "evaluate st ''a > b >> c'' = evaluate st ''(a > b) >> c''"
  by (simp_all add: symbolic)

lemma shift_relational_8:
  "evaluate st ''a >> b >= c'' = evaluate st ''a >> (b >= c)''"
  "evaluate st ''a >= b >> c'' = evaluate st ''(a >= b) >> c''"
  by (simp_all add: symbolic)

lemma shift_relational_9:
  "evaluate st ''a >>> b < c'' = evaluate st ''a >>> (b < c)''"
  "evaluate st ''a < b >>> c'' = evaluate st ''(a < b) >>> c''"
  by (simp_all add: symbolic)

lemma shift_relational_10:
  "evaluate st ''a >>> b <= c'' = evaluate st ''a >>> (b <= c)''"
  "evaluate st ''a <= b >>> c'' = evaluate st ''(a <= b) >>> c''"
  by (simp_all add: symbolic)

lemma shift_relational_11:
  "evaluate st ''a >>> b > c'' = evaluate st ''a >>> (b > c)''"
  "evaluate st ''a > b >>> c'' = evaluate st ''(a > b) >>> c''"
  by (simp_all add: symbolic)

lemma shift_relational_12:
  "evaluate st ''a >>> b >= c'' = evaluate st ''a >>> (b >= c)''"
  "evaluate st ''a >= b >>> c'' = evaluate st ''(a >= b) >>> c''"
  by (simp_all add: symbolic)

text \<open>
  C1 (as the specification states it): the shift operators bind tighter than the relational
  operators, so that \<^verbatim>\<open>1 << 2 < 3\<close> groups as \<^verbatim>\<open>(1 << 2) < 3\<close>. The code orders the two
  levels the other way round: the shifts are pushed at index 8 of \<^verbatim>\<open>rules\<close> and the
  relational operators at index 9. \<^verbatim>\<open>1 << 2 < 3\<close> is \<^verbatim>\<open>1 << (2 < 3)\<close>, that is
  \<^verbatim>\<open>1 << true\<close>, which is 2, where \<^verbatim>\<open>(1 << 2) < 3\<close> is false.
\<close>

theorem C1_counterexample:
  "fst (evaluate Parser_new ''1 << 2 < 3'') = Inr (Num (Fin 2)) \<and>
   fst (evaluate Parser_new ''(1 << 2) < 3'') = Inr (Bool False)"
  by (simp add: concrete)

text \<open>
  C1, amended: the relational operators \<^verbatim>\<open><\<close>, \<^verbatim>\<open><=\<close>, \<^verbatim>\<open>>\<close>, \<^verbatim>\<open>>=\<close> are one level
  above the shift operators \<^verbatim>\<open><<\<close>, \<^verbatim>\<open>>>\<close>, \<^verbatim>\<open>>>>\<close>, and a comparison binds tighter
  than a shift. For every shift \<open>sh\<close>, every comparison \<open>rl\<close> and every state of the
  parser (so for all values of the variables \<open>a\<close>, \<open>b\<close>, \<open>c\<close>), \<open>a sh b rl c\<close> evaluates as
  \<open>a sh (b rl c)\<close> and \<open>a rl b sh c\<close> as \<open>(a rl b) sh c\<close>: the same result and the same
  final state.
\<close>

theorem C1_relational_binds_tighter_than_shift:
  assumes "sh \<in> set [''<<'', ''>>'', ''>>>'']" and "rl \<in> set [''<'', ''<='', ''>'', ''>='']"
  shows "map fst (rules ! 8) = [''>>>'', ''>>'', ''<<''] \<and>
         map fst (rules ! 9) = [''<='', ''<'', ''>='', ''>''] \<and>
         evaluate st (''a '' @ sh @ '' b '' @ rl @ '' c'')
           = evaluate st (''a '' @ sh @ '' (b '' @ rl @ '' c)'') \<and>
         evaluate st (''a '' @ rl @ '' b '' @ sh @ '' c'')
           = evaluate st (''(a '' @ rl @ '' b) '' @ sh @ '' c'')"
proof -
  have "map fst (rules ! 8) = [''>>>'', ''>>'', ''<<'']"
    and "map fst (rules ! 9) = [''<='', ''<'', ''>='', ''>'']"
    by (simp_all add: rules_def)
  moreover have "evaluate st (''a '' @ sh @ '' b '' @ rl @ '' c'')
      = evaluate st (''a '' @ sh @ '' (b '' @ rl @ '' c)'')"
    using assms by (auto simp: shift_relational_1(1) shift_relational_2(1) shift_relational_3(1) shift_relational_4(1) shift_relational_5(1) shift_relational_6(1) shift_relational_7(1) shift_relational_8(1) shift_relational_9(1) shift_relational_10(1) shift_relational_11(1) shift_relational_12(1))
  moreover have "evaluate st (''a '' @ rl @ '' b '' @ sh @ '' c'')
      = evaluate st (''(a '' @ rl @ '' b) '' @ sh @ '' c'')"
    using assms by (auto simp: shift_relational_1(2) shift_relational_2(2) shift_relational_3(2) shift_relational_4(2) shift_relational_5(2) shift_relational_6(2) shift_relational_7(2) shift_relational_8(2) shift_relational_9(2) shift_relational_10(2) shift_relational_11(2) shift_relational_12(2))
  ultimately show ?thesis by simp
qed

theorem C1_witness:
  "evaluate Parser_new ''a << b < c'' = evaluate Parser_new ''a << (b < c)'' \<and>
   evaluate Parser_new ''a < b << c'' = evaluate Parser_new ''(a < b) << c''"
  using C1_relational_binds_tighter_than_shift [of "''<<''" "''<''" Parser_new] by simp


section \<open>Associativity of the exponent\<close>

text \<open>
  C4: the exponent operator \<^verbatim>\<open>**\<close> is right-associative. For every state of the parser
  (so for all values of the variables \<open>a\<close>, \<open>b\<close>, \<open>c\<close>) the chain \<open>a ** b ** c\<close> evaluates
  as \<open>a ** (b ** c)\<close>, with the same result and the same final state; in particular
  \<^verbatim>\<open>2**3**2\<close> is 512, where \<^verbatim>\<open>(2**3)**2\<close> is 64.
\<close>

theorem C4_exponent_right_associative:
  "evaluate st ''a ** b ** c'' = evaluate st ''a ** (b ** c)'' \<and>
   fst (evaluate Parser_new ''2**3**2'') = Inr (Num (Fin 512)) \<and>
   fst (evaluate Parser_new ''(2**3)**2'') = Inr (Num (Fin 64))"
proof -
  have "evaluate st ''a ** b ** c'' = evaluate st ''a ** (b ** c)''"
    by (simp add: symbolic)
  moreover have "fst (evaluate Parser_new ''2**3**2'') = Inr (Num (Fin 512))"
    by (simp add: concrete)
  moreover have "fst (evaluate Parser_new ''(2**3)**2'') = Inr (Num (Fin 64))"
    by (simp add: concrete)
  ultimately show ?thesis by simp
qed


section \<open>Input with no expression\<close>

lemma accept_at_end: "consuming r \<Longrightarrow> length (text' ex) \<le> pos ex \<Longrightarrow> accept r ex = None"
proof -
  assume c: "consuming r" and l: "length (text' ex) \<le> pos ex"
  have "r [] = None"
  proof (cases "r []")
    case (Some n)
    with c have "0 < n \<and> n \<le> length ([] :: string)" unfolding consuming_def by blast
    then show ?thesis by auto
  qed simp
  with l show ?thesis by (simp add: accept_def)
qed

lemma Parser_value_at_end:
  "length (text' ex) \<le> pos ex \<Longrightarrow> Parser_value ex st = (Inl (ExpectedNumberOrIdentifier (pos ex)), st)"
  by (simp add: Parser_value_def Parser_number_def Parser_identifier_def
      accept_at_end regNumber_consuming regIdent_consuming)

lemma Parser_prefix_at_end:
  "length (text' ex) \<le> pos ex \<Longrightarrow> Parser_prefix ex st = (Inl (ExpectedNumberOrIdentifier (pos ex)), st)"
  by (simp add: Parser_prefix_bind Parser_parenthesis_bind Parser_value_at_end
      accept_at_end regPrefix_consuming regOpenParenthesis_consuming)

lemma Parser_operator_at_end:
  "length (text' ex) \<le> pos ex \<Longrightarrow> Parser_operator lvl ex st = (Inl (ExpectedNumberOrIdentifier (pos ex)), st)"
proof (induction "length rules - lvl" arbitrary: lvl)
  case 0
  then show ?case by (subst Parser_operator_bind) (simp add: Parser_prefix_at_end)
next
  case (Suc n)
  from Suc(2) have "\<not> length rules \<le> lvl" by simp
  moreover from Suc have "Parser_operator (lvl + 1) ex st = (Inl (ExpectedNumberOrIdentifier (pos ex)), st)"
    by simp
  ultimately show ?case by (subst Parser_operator_bind) simp
qed

lemma Expression_new_whitespace:
  "list_all is_space ws \<Longrightarrow> Expression_new ws = \<lparr>text' = ws, pos = length ws\<rparr>"
proof -
  assume "list_all is_space ws"
  then have tw: "takeWhile is_space ws = ws" by (simp add: list_all_iff)
  show ?thesis by (simp add: Expression_new_def skipWhitespace_def regWhitespace_def Let_def tw)
qed


text \<open>
  C9 (as the specification states it): on the empty string and on a string of whitespace,
  \<^verbatim>\<open>evaluate\<close> fails with "expected number or identifier" at offset 0. The offset of
  the message is the position of the scanner, which the constructor of \<^verbatim>\<open>Expression\<close>
  has already moved past the whitespace: on one space the offset is 1.
\<close>

theorem C9_counterexample:
  "list_all is_space '' '' \<and>
   fst (evaluate Parser_new '' '') = Inl (ExpectedNumberOrIdentifier 1) \<and>
   fst (evaluate Parser_new '' '') \<noteq> Inl (ExpectedNumberOrIdentifier 0)"
  by (simp add: concrete)


text \<open>
  C9, amended: on the empty string, and on a string that consists of whitespace only,
  \<^verbatim>\<open>evaluate\<close> fails with "expected number or identifier" at the offset that is the
  length of the string (0 for the empty string), and leaves the state of the parser as it
  was.
\<close>

theorem C9_whitespace_only:
  "list_all is_space ws \<Longrightarrow> evaluate st ws = (Inl (ExpectedNumberOrIdentifier (length ws)), st)"
  by (simp add: evaluate_bind Expression_new_whitespace Parser_operator_at_end)


theorem C9_witness:
  "list_all is_space [CHR '' '', CHR 0x09] \<and>
   evaluate Parser_new [CHR '' '', CHR 0x09] = (Inl (ExpectedNumberOrIdentifier 2), Parser_new) \<and>
   evaluate Parser_new [] = (Inl (ExpectedNumberOrIdentifier 0), Parser_new)"
  using C9_whitespace_only [of "[CHR '' '', CHR 0x09]" Parser_new] C9_whitespace_only [of "[]" Parser_new]
  by (simp add: is_space_def)


section \<open>Assignment to a binding that is not a variable\<close>

text \<open>
  An assignment operator writes to its left operand, and the setter of an \<^verbatim>\<open>Lvalue\<close>
  throws: on a constant or on a computed value every entry of the assignment family fails
  with "cannot assign" and leaves the state as it was.
\<close>

lemma assignment_immutable:
  "lvalue (heap st ! a) \<Longrightarrow> assignment f (a # b # args) st = (Inl CannotAssign, st)"
  by (simp add: assignment_def set_value_def)

lemma assignment_family:
  "k \<in> set [''='', ''+='', ''-='', ''*='', ''/='', ''%='', ''**='', ''<<='', ''>>='', ''>>>='',
            ''&='', ''^='', ''|=''] \<Longrightarrow>
   \<exists>f. map_of operations k = Some (right_op (assignment f))"
  by (auto simp: operations_lookup)

lemma assign_to_constant: "fst (evaluate Parser_new ''true = 0'') = Inl CannotAssign"
  by (simp add: concrete)

lemma assign_to_computed: "fst (evaluate Parser_new ''(1+1) = 3'') = Inl CannotAssign"
  by (simp add: concrete)

text \<open>
  C2: for every assignment operator whose left operand is not a variable, \<^verbatim>\<open>evaluate\<close>
  fails with the error of an immutable binding. The code does not reach the assignment for
  \<^verbatim>\<open>>>>=\<close>: the shift pattern \<^verbatim>\<open>(>>>|>>|<<)(?!=)\<close> of level 8 rejects \<^verbatim>\<open>>>>\<close>
  before \<^verbatim>\<open>=\<close>, backtracks to \<^verbatim>\<open>>>\<close>, which the third \<^verbatim>\<open>>\<close> may follow, and takes
  it. The right operand of that shift then starts at \<^verbatim>\<open>>=\<close>, and \<^verbatim>\<open>true >>>= 0\<close> fails
  with "expected number or identifier" at offset 7.
\<close>

theorem C2_unsigned_shift_assignment:
  "fst (evaluate Parser_new ''true >>>= 0'') = Inl (ExpectedNumberOrIdentifier 7)"
  by (simp add: concrete)


section \<open>Names that are not ordinary keys of the environment\<close>

text \<open>
  C6: reading an identifier that is not set never fails, and creates a variable that holds
  0. The code fails on every identifier once the name \<^verbatim>\<open>hasOwnProperty\<close> has been read:
  the binding stored under that name shadows the method that \<^verbatim>\<open>identifier\<close> calls on
  the environment, in the same call of \<^verbatim>\<open>evaluate\<close> or in a later one.
\<close>

theorem C6_hasOwnProperty:
  "fst (evaluate Parser_new ''hasOwnProperty; y'') = Inl TypeError \<and>
   fst (evaluate (snd (evaluate Parser_new ''hasOwnProperty'')) ''y'') = Inl TypeError"
  by (simp add: concrete)



section \<open>The factorial and its cache\<close>

text \<open>
  The reference definition, from the words of the specification: \<^verbatim>\<open>factorial(n)\<close>
  truncates \<open>n\<close> to a 32-bit integer, returns 1 when that integer is below 1, and returns
  \<open>n * factorial(n - 1)\<close> otherwise. It has no cache.
\<close>

function factorial_spec :: "jsval \<Rightarrow> jsval" where
  "factorial_spec n =
     (let t = int32 n in
      if t < 1 then Num (Fin 1)
      else js_mul (Num (Fin (of_int t))) (factorial_spec (Num (Fin (of_int (t - 1))))))"
  by pat_completeness auto
termination factorial_spec
proof (relation "measure (\<lambda>n. nat (int32 n))", goal_cases)
  case 1
  show ?case by simp
next
  case (2 n x)
  then have "int32 (Num (Fin (of_int (x - 1)))) = x - 1"
    using int32_range [of n] by (intro int32_of_int) auto
  with 2 show ?case by simp
qed

declare factorial_spec.simps [simp del]

text \<open>
  The cache is valid when every element from index 1 on holds the factorial of its index.
  Index 0 is never read, and is a hole when the first write is at index 1. The cache of the
  module starts empty and only \<^verbatim>\<open>factorial\<close> writes to it.
\<close>

definition cache_ok :: "jsval option list \<Rightarrow> bool" where
  "cache_ok cache =
     (\<forall>i. 1 \<le> i \<and> i < length cache \<longrightarrow> cache ! i = Some (factorial_spec (Num (Fin (of_int (int i))))))"

lemma int32_int32 [simp]: "int32 (Num (Fin (of_int (int32 n)))) = int32 n"
  using int32_range [of n] by (intro int32_of_int) auto

lemma factorial_spec_int32: "factorial_spec (Num (Fin (of_int (int32 n)))) = factorial_spec n"
  by (subst factorial_spec.simps, subst (2) factorial_spec.simps) simp

lemma factorial_below: "int32 a < 1 \<Longrightarrow> factorial a cache = (Num (Fin 1), cache)"
  by (subst factorial.simps) simp

lemma factorial_cached:
  "\<not> int32 a < 1 \<Longrightarrow> int (length cache) > int32 a \<Longrightarrow>
   factorial a cache = (array_get cache (nat (int32 a)), cache)"
  by (subst factorial.simps) simp

lemma factorial_compute:
  "\<not> int32 a < 1 \<Longrightarrow> \<not> int (length cache) > int32 a \<Longrightarrow>
   factorial a cache =
     (let (r, cache') = factorial (Num (Fin (of_int (int32 a - 1)))) cache;
          v = js_mul (Num (Fin (of_int (int32 a)))) r
      in (v, array_set cache' (nat (int32 a)) v))"
  by (subst factorial.simps) (simp add: Let_def)

lemma factorial_spec_below: "int32 n < 1 \<Longrightarrow> factorial_spec n = Num (Fin 1)"
  by (subst factorial_spec.simps) simp

lemma factorial_spec_step:
  "\<not> int32 n < 1 \<Longrightarrow>
   factorial_spec n =
     js_mul (Num (Fin (of_int (int32 n)))) (factorial_spec (Num (Fin (of_int (int32 n - 1)))))"
  by (subst factorial_spec.simps) (simp add: Let_def)

lemma factorial_refines:
  "cache_ok cache \<Longrightarrow>
   fst (factorial n cache) = factorial_spec n \<and> cache_ok (snd (factorial n cache)) \<and>
   (1 \<le> int32 n \<longrightarrow> int32 n < int (length (snd (factorial n cache))))"
proof (induction n cache rule: factorial.induct)
  case (1 a0 cache)
  let ?a = "int32 a0"
  show ?case
  proof (cases "?a < 1")
    case True
    with 1(2) show ?thesis by (simp add: factorial_below factorial_spec_below)
  next
    case False
    note pos = False
    show ?thesis
    proof (cases "int (length cache) > ?a")
      case True
      from 1(2) have "1 \<le> nat ?a \<and> nat ?a < length cache \<longrightarrow>
          cache ! nat ?a = Some (factorial_spec (Num (Fin (of_int (int (nat ?a))))))"
        unfolding cache_ok_def by blast
      with pos True have "cache ! nat ?a = Some (factorial_spec (Num (Fin (of_int (int (nat ?a))))))"
        by auto
      moreover from pos True have "nat ?a < length cache" by (simp add: nat_less_iff)
      ultimately have "array_get cache (nat ?a) = factorial_spec a0"
        using pos by (simp add: array_get_def factorial_spec_int32)
      with pos True 1(2) show ?thesis by (simp add: factorial_cached)
    next
      case False
      let ?p = "Num (Fin (of_int (?a - 1)))"
      obtain r cache' where rc: "factorial ?p cache = (r, cache')" by (cases "factorial ?p cache")
      have p: "int32 ?p = ?a - 1"
        using int32_range [of a0] pos by (intro int32_of_int) auto
      from 1(1) [OF refl pos False 1(2)] rc p
      have r: "r = factorial_spec ?p" and ok: "cache_ok cache'"
        and len: "1 \<le> ?a - 1 \<longrightarrow> ?a - 1 < int (length cache')"
        by simp_all
      let ?v = "js_mul (Num (Fin (of_int ?a))) r"
      have v: "?v = factorial_spec a0"
        using pos r by (simp add: factorial_spec_step [of a0])
      have res: "factorial a0 cache = (?v, array_set cache' (nat ?a) ?v)"
        using pos False rc by (simp add: factorial_compute Let_def)
      have "cache_ok (array_set cache' (nat ?a) ?v)"
        unfolding cache_ok_def
      proof (intro allI impI)
        fix i assume i: "1 \<le> i \<and> i < length (array_set cache' (nat ?a) ?v)"
        show "array_set cache' (nat ?a) ?v ! i = Some (factorial_spec (Num (Fin (of_int (int i)))))"
        proof (cases "i = nat ?a")
          case True
          with pos have "factorial_spec (Num (Fin (of_int (int i)))) = factorial_spec a0"
            by (simp add: factorial_spec_int32)
          with True v show ?thesis
            by (simp add: array_set_def nth_append)
        next
          case False
          have L: "length (array_set cache' (nat ?a) ?v) = max (length cache') (nat ?a + 1)"
            by (simp add: array_set_def)
          have "i < length cache'"
          proof (rule ccontr)
            assume n: "\<not> i < length cache'"
            with i L False have "i < nat ?a" by (auto simp: max_def split: if_splits)
            with i have "1 \<le> ?a - 1" by linarith
            with len have "?a - 1 < int (length cache')" by simp
            with \<open>i < nat ?a\<close> n show False by linarith
          qed
          with ok i have "cache' ! i = Some (factorial_spec (Num (Fin (of_int (int i)))))"
            unfolding cache_ok_def by blast
          with False \<open>i < length cache'\<close> show ?thesis
            by (simp add: array_set_def nth_append)
        qed
      qed
      moreover have "?a < int (length (array_set cache' (nat ?a) ?v))"
        using pos by (auto simp: array_set_def)
      ultimately show ?thesis using res v by simp
    qed
  qed
qed


lemma int32_literals:
  "int32 (Num (Fin 0)) = 0"
  "int32 (Num (Fin 1)) = 1"
  "int32 (Num (Fin (- 1))) = - 1"
  "(numeral k :: int) < 2 ^ 31 \<Longrightarrow> int32 (Num (Fin (numeral k))) = numeral k"
  using int32_of_int [of 0] int32_of_int [of 1] int32_of_int [of "- 1"] int32_of_int [of "numeral k"]
  by simp_all

lemmas factorial_simps = factorial_below factorial_cached factorial_compute
  factorial_spec_below factorial_spec_step int32_literals array_get_def array_set_def

lemma evaluate_factorial_of_literal:
  "fst (evaluate st ''5!'') = Inr (fst (factorial (Num (Fin 5)) (factorialCache st)))"
  "fst (evaluate st ''0!'') = Inr (fst (factorial (Num (Fin 0)) (factorialCache st)))"
  "fst (evaluate st ''-1!'') = Inr (fst (factorial (Num (Fin (- 1))) (factorialCache st)))"
  "factorialCache (snd (evaluate st ''5!'')) = snd (factorial (Num (Fin 5)) (factorialCache st))"
  by (simp_all add: concrete nth_append split: prod.splits)

text \<open>
  C5: the memoized factorial equals the reference definition. From every valid cache and for
  every value \<open>n\<close>, \<^verbatim>\<open>factorial\<close> returns what the reference returns and leaves a valid
  cache, so a call returns the same value whatever calls came before it. From every parser
  with a valid cache, \<^verbatim>\<open>5!\<close> is 120, \<^verbatim>\<open>0!\<close> is 1 and \<^verbatim>\<open>-1!\<close> is 1, and the cache is
  valid afterwards.
\<close>

theorem C5_factorial_equals_reference:
  assumes "cache_ok cache" and "cache_ok (factorialCache st)"
  shows "fst (factorial n cache) = factorial_spec n \<and>
         cache_ok (snd (factorial n cache)) \<and>
         fst (factorial n (snd (factorial m cache))) = fst (factorial n cache) \<and>
         fst (evaluate st ''5!'') = Inr (Num (Fin 120)) \<and>
         fst (evaluate st ''0!'') = Inr (Num (Fin 1)) \<and>
         fst (evaluate st ''-1!'') = Inr (Num (Fin 1)) \<and>
         cache_ok (factorialCache (snd (evaluate st ''5!'')))"
proof -
  note r = factorial_refines [OF assms(1)]
  have "cache_ok (snd (factorial m cache))" using factorial_refines [OF assms(1), of m] by simp
  from factorial_refines [OF this, of n] r [of n]
  have "fst (factorial n (snd (factorial m cache))) = fst (factorial n cache)" by simp
  moreover have "factorial_spec (Num (Fin 5)) = Num (Fin 120)"
    and "factorial_spec (Num (Fin 0)) = Num (Fin 1)"
    and "factorial_spec (Num (Fin (- 1))) = Num (Fin 1)"
    by (simp_all add: factorial_simps js_simps)
  ultimately show ?thesis
    using r [of n] factorial_refines [OF assms(2)]
    by (simp add: evaluate_factorial_of_literal)
qed

theorem C5_witness:
  "cache_ok [] \<and> cache_ok (factorialCache Parser_new) \<and>
   fst (factorial (Num (Fin 5)) []) = Num (Fin 120) \<and>
   factorial_spec (Num (Fin 5)) = Num (Fin 120) \<and>
   fst (factorial (Num (Fin 5)) (snd (factorial (Num (Fin 3)) []))) = Num (Fin 120) \<and>
   fst (evaluate Parser_new ''5!'') = Inr (Num (Fin 120)) \<and>
   fst (evaluate Parser_new ''0!'') = Inr (Num (Fin 1)) \<and>
   fst (evaluate Parser_new ''-1!'') = Inr (Num (Fin 1))"
proof -
  have c: "cache_ok []" by (simp add: cache_ok_def)
  then have p: "cache_ok (factorialCache Parser_new)" by (simp add: Parser_new_def)
  have "fst (factorial (Num (Fin 5)) []) = Num (Fin 120)"
    by (simp add: factorial_simps js_simps Let_def)
  with c p C5_factorial_equals_reference [OF c p, of "Num (Fin 5)" "Num (Fin 3)"]
  show ?thesis by simp
qed


section \<open>The arity check of the operator loop\<close>

text \<open>
  The loop of \<^verbatim>\<open>operator\<close> throws "too many arguments" when the function of an operator
  names more than two parameters. No result of the parser is that error: every entry of
  the table names one or two parameters, and no function of the tables throws it.
\<close>

definition no_arity_error :: "'a result \<Rightarrow> bool" where
  "no_arity_error res = (\<forall>t. fst res \<noteq> Inl (TooManyArguments t))"

lemma no_arity_error_Inr [simp]: "no_arity_error (Inr a, s)"
  by (simp add: no_arity_error_def)

lemma no_arity_error_Inl [simp]: "no_arity_error (Inl e, s) = (\<forall>t. e \<noteq> TooManyArguments t)"
  by (simp add: no_arity_error_def)

lemma no_arity_error_bind:
  "no_arity_error m \<Longrightarrow> (\<And>a s. m = (Inr a, s) \<Longrightarrow> no_arity_error (f a s)) \<Longrightarrow>
   no_arity_error (bind m f)"
  by (cases m; cases "fst m") (auto simp: bind_def no_arity_error_def)

lemma no_arity_error_return_Lvalue [simp]: "no_arity_error (return_Lvalue v st)"
  by (simp add: return_Lvalue_def Lvalue_new_def)

lemma no_arity_error_set_value [simp]: "no_arity_error (set_value a v st)"
  by (simp add: set_value_def)

lemma set_value_cases:
  "set_value a v st = (Inl CannotAssign, st) \<or> (\<exists>st'. set_value a v st = (Inr (), st'))"
  by (simp add: set_value_def)

lemma no_arity_error_execs [simp]:
  "no_arity_error (binary f args st)"
  "no_arity_error (assignment f args st)"
  "no_arity_error (postfix_update g args st)"
  "no_arity_error (factorial_exec args st)"
  "no_arity_error (comma_exec args st)"
  "no_arity_error (prefix_update g a st)"
  "no_arity_error (prefix_pure h a st)"
  using set_value_cases [of "hd args" "f (get_value (hd args) st) (get_value (hd (tl args)) st)" st]
    set_value_cases [of "hd args" "Num (g (ToNumber (get_value (hd args) st)))" st]
    set_value_cases [of a "Num (g (ToNumber (get_value a st)))" st]
  by (auto simp: binary_def assignment_def postfix_update_def factorial_exec_def comma_exec_def
      prefix_update_def prefix_pure_def Let_def split: list.splits prod.splits sum.splits)

definition well_formed_entry :: "opdesc \<Rightarrow> bool" where
  "well_formed_entry d =
     ((exec_length d = 1 \<or> exec_length d = 2) \<and> (\<forall>args st. no_arity_error (exec d args st)))"

lemma operations_well_formed: "map_of operations k = Some d \<Longrightarrow> well_formed_entry d"
proof -
  have "list_all (\<lambda>(k, d). well_formed_entry d) operations"
    by (simp add: operations_def well_formed_entry_def unary_op_def left_op_def right_op_def)
  moreover assume "map_of operations k = Some d"
  then have "(k, d) \<in> set operations" by (rule map_of_SomeD)
  ultimately show ?thesis by (auto simp: list_all_iff)
qed

lemma prefixOps_no_arity_error: "map_of prefixOps k = Some f \<Longrightarrow> no_arity_error (f a st)"
proof -
  have "list_all (\<lambda>(k, f). \<forall>a st. no_arity_error (f a st)) prefixOps"
    by (simp add: prefixOps_def)
  moreover assume "map_of prefixOps k = Some f"
  then have "(k, f) \<in> set prefixOps" by (rule map_of_SomeD)
  ultimately show ?thesis by (auto simp: list_all_iff)
qed

lemma exec_no_arity_error:
  "exec d args st = (Inl (TooManyArguments t), s) \<Longrightarrow> map_of operations k = Some d \<Longrightarrow> False"
proof -
  assume e: "exec d args st = (Inl (TooManyArguments t), s)" and m: "map_of operations k = Some d"
  from operations_well_formed [OF m] have "\<forall>args st. no_arity_error (exec d args st)"
    by (simp add: well_formed_entry_def)
  then have "no_arity_error (exec d args st)" by blast
  with e show False by simp
qed

lemma Parser_identifier_error: "Parser_identifier ex st = (Inl e, s) \<Longrightarrow> e = TypeError"
  by (auto simp: Parser_identifier_def object_new_def split: option.splits if_splits prod.splits)

lemma Parser_value_no_arity_error: "no_arity_error (Parser_value ex st)"
  unfolding no_arity_error_def Parser_value_def Parser_number_def
  by (auto simp: Lvalue_new_def split: option.splits prod.splits sum.splits if_splits
      dest: Parser_identifier_error exec_no_arity_error)


lemma Parser_no_arity_error:
  "no_arity_error (Parser_operator lvl ex st)"
  "no_arity_error (Parser_operator_while lvl v ex st)"
  "no_arity_error (Parser_term ex st)"
  "no_arity_error (Parser_prefix ex st)"
  "no_arity_error (Parser_parenthesis ex st)"
  "no_arity_error (Parser_expression ex st)"
proof (induct lvl ex st and lvl v ex st and ex st and ex st and ex st and ex st
    rule: Parser_operator_Parser_operator_while_Parser_term_Parser_prefix_Parser_parenthesis_Parser_expression.induct)
  case (1 lvl ex st)
  show ?case
  proof (cases "length rules \<le> lvl")
    case True
    with 1(1) show ?thesis by (subst Parser_operator_bind) simp
  next
    case False
    have "no_arity_error (bind (Parser_operator (lvl + 1) ex st) (\<lambda>(v, ex1). Parser_operator_while lvl v ex1))"
    proof (rule no_arity_error_bind)
      show "no_arity_error (Parser_operator (lvl + 1) ex st)" by (rule 1(2) [OF False])
    next
      fix a s assume m: "Parser_operator (lvl + 1) ex st = (Inr a, s)"
      obtain v ex1 where a: "a = (v, ex1)" by (cases a)
      from 1(3) [OF False m [symmetric] refl a [symmetric]]
      show "no_arity_error ((case a of (v, ex1) \<Rightarrow> Parser_operator_while lvl v ex1) s)"
        by (simp add: a)
    qed
    with False show ?thesis by (subst Parser_operator_bind) simp
  qed
next
  case (2 lvl v ex st)
  show ?case
  proof (cases "length rules \<le> lvl")
    case True
    then show ?thesis by (subst Parser_operator_while_bind) simp
  next
    case False
    note lvl = False
    show ?thesis
    proof (cases "accept (match_alts (rules ! lvl)) ex")
      case None
      with lvl show ?thesis by (subst Parser_operator_while_bind) simp
    next
      case (Some x2)
      note acc = Some
      obtain ret ex1 where x2: "x2 = (ret, ex1)" by (cases x2)
      show ?thesis
      proof (cases "map_of operations ret")
        case None
        with lvl acc x2 show ?thesis by (subst Parser_operator_while_bind) simp
      next
        case (Some d)
        note d = Some
        from operations_well_formed [OF d]
        have ar: "exec_length d = 1 \<or> exec_length d = 2"
          and ex: "\<And>args s. no_arity_error (exec d args s)"
          by (simp_all add: well_formed_entry_def)
        from ar show ?thesis
        proof
          assume a1: "exec_length d = 1"
          then have n0: "exec_length d \<noteq> 0" by simp
          have "no_arity_error (bind (exec d [v] st) (\<lambda>v'. Parser_operator_while lvl v' ex1))"
          proof (rule no_arity_error_bind [OF ex])
            fix a s assume m: "exec d [v] st = (Inr a, s)"
            from 2(2) [OF lvl acc x2 [symmetric] d n0 a1 m [symmetric] refl]
            show "no_arity_error (Parser_operator_while lvl a ex1 s)" .
          qed
          with lvl acc x2 d a1 show ?thesis by (subst Parser_operator_while_bind) simp
        next
          assume a2: "exec_length d = 2"
          then have n0: "exec_length d \<noteq> 0" and n1: "exec_length d \<noteq> 1" by simp_all
          let ?l = "if right d then lvl else lvl + 1"
          have "no_arity_error (bind (Parser_operator ?l ex1 st)
              (\<lambda>(b, ex2) st1. bind (exec d [v, b] st1) (\<lambda>v'. Parser_operator_while lvl v' ex2)))"
          proof (rule no_arity_error_bind)
            show "no_arity_error (Parser_operator ?l ex1 st)"
              by (rule 2(3) [OF lvl acc x2 [symmetric] d n0 n1 a2])
          next
            fix a s assume m: "Parser_operator ?l ex1 st = (Inr a, s)"
            obtain b ex2 where a: "a = (b, ex2)" by (cases a)
            have "no_arity_error (bind (exec d [v, b] s) (\<lambda>v'. Parser_operator_while lvl v' ex2))"
            proof (rule no_arity_error_bind [OF ex])
              fix r s' assume m': "exec d [v, b] s = (Inr r, s')"
              from 2(4) [OF lvl acc x2 [symmetric] d n0 n1 a2 m [symmetric] refl a [symmetric] m' [symmetric] refl]
              show "no_arity_error (Parser_operator_while lvl r ex2 s')" .
            qed
            then show "no_arity_error ((case a of (b, ex2) \<Rightarrow> \<lambda>st1.
                bind (exec d [v, b] st1) (\<lambda>v'. Parser_operator_while lvl v' ex2)) s)"
              by (simp add: a)
          qed
          with lvl acc x2 d a2 show ?thesis by (subst Parser_operator_while_bind) simp
        qed
      qed
    qed
  qed
next
  case (3 ex st)
  then show ?case by simp
next
  case (4 ex st)
  show ?case
  proof (cases "accept regPrefix ex")
    case None
    with 4(1) show ?thesis by (subst Parser_prefix_bind) simp
  next
    case (Some x2)
    obtain ret ex1 where x2: "x2 = (ret, ex1)" by (cases x2)
    have "no_arity_error (bind (Parser_prefix ex1 st)
        (\<lambda>(a, ex2) st1. case map_of prefixOps ret of
            None \<Rightarrow> (Inl TypeError, st1)
          | Some f \<Rightarrow> bind (f a st1) (\<lambda>r. Pair (Inr (r, ex2)))))"
    proof (rule no_arity_error_bind)
      show "no_arity_error (Parser_prefix ex1 st)" by (rule 4(2) [OF Some x2 [symmetric]])
    next
      fix a s assume "Parser_prefix ex1 st = (Inr a, s)"
      obtain b ex2 where a: "a = (b, ex2)" by (cases a)
      show "no_arity_error ((case a of (a, ex2) \<Rightarrow> \<lambda>st1. case map_of prefixOps ret of
            None \<Rightarrow> (Inl TypeError, st1)
          | Some f \<Rightarrow> bind (f a st1) (\<lambda>r. Pair (Inr (r, ex2)))) s)"
        by (auto simp: a split: option.splits intro!: no_arity_error_bind prefixOps_no_arity_error)
    qed
    with Some x2 show ?thesis by (subst Parser_prefix_bind) simp
  qed
next
  case (5 ex st)
  show ?case
  proof (cases "accept regOpenParenthesis ex")
    case None
    then show ?thesis by (subst Parser_parenthesis_bind) (simp add: Parser_value_no_arity_error)
  next
    case (Some x2)
    obtain t ex1 where x2: "x2 = (t, ex1)" by (cases x2)
    from 5 [OF Some x2 [symmetric]] have "no_arity_error (Parser_operator 0 ex1 st)" by simp
    then have "no_arity_error (bind (Parser_operator 0 ex1 st)
        (\<lambda>(ret, ex2) st1. case accept regClosingParenthesis ex2 of
            None \<Rightarrow> (Inl (ExpectedClosingParenthesis (pos ex2)), st1)
          | Some (t', ex3) \<Rightarrow> (Inr (ret, ex3), st1)))"
      by (rule no_arity_error_bind) (auto split: option.splits)
    with Some x2 show ?thesis by (subst Parser_parenthesis_bind) simp
  qed
next
  case (6 ex st)
  then show ?case by simp
qed


lemma evaluate_while_no_arity_error: "no_arity_error (evaluate_while ret ex st)"
proof (induct ret ex st rule: evaluate_while.induct)
  case (1 ret ex st)
  show ?case
  proof (cases "remaining ex \<noteq> []")
    case False
    then show ?thesis by (subst evaluate_while_bind) simp
  next
    case True
    note r = True
    show ?thesis
    proof (cases "accept regEOS ex")
      case None
      with r show ?thesis by (subst evaluate_while_bind) simp
    next
      case (Some x2)
      obtain t ex1 where x2: "x2 = (t, ex1)" by (cases x2)
      show ?thesis
      proof (cases "remaining ex1 \<noteq> []")
        case False
        with 1(2) [OF r Some x2 [symmetric]] r Some x2 show ?thesis
          by (subst evaluate_while_bind) simp
      next
        case True
        have "no_arity_error (bind (Parser_operator 0 ex1 st) (\<lambda>(ret', ex2). evaluate_while ret' ex2))"
        proof (rule no_arity_error_bind [OF Parser_no_arity_error(1)])
          fix a s assume m: "Parser_operator 0 ex1 st = (Inr a, s)"
          obtain ret' ex2 where a: "a = (ret', ex2)" by (cases a)
          from m have m': "Parser_expression ex1 st = (Inr a, s)" by simp
          from 1(1) [OF r Some x2 [symmetric] True m' [symmetric] refl a [symmetric]]
          show "no_arity_error ((case a of (ret', ex2) \<Rightarrow> evaluate_while ret' ex2) s)"
            by (simp add: a)
        qed
        with r Some x2 True show ?thesis by (subst evaluate_while_bind) simp
      qed
    qed
  qed
qed

text \<open>
  C8: the arity error is unreachable. Every token that a pattern of \<^verbatim>\<open>rules\<close> can match
  is a key of \<^verbatim>\<open>operations\<close> whose function names one or two parameters, so does every
  entry of the table, and for every state and every input \<^verbatim>\<open>evaluate\<close> does not fail
  with "too many arguments".
\<close>

theorem C8_arity_error_unreachable:
  "list_all (\<lambda>alts. list_all (\<lambda>(p, bad). case map_of operations p of
        None \<Rightarrow> False
      | Some d \<Rightarrow> exec_length d = 1 \<or> exec_length d = 2) alts) rules \<and>
   list_all (\<lambda>(k, d). exec_length d = 1 \<or> exec_length d = 2) operations \<and>
   fst (evaluate st expression) \<noteq> Inl (TooManyArguments t)"
proof -
  have "list_all (\<lambda>alts. list_all (\<lambda>(p, bad). case map_of operations p of
        None \<Rightarrow> False
      | Some d \<Rightarrow> exec_length d = 1 \<or> exec_length d = 2) alts) rules"
    by (simp add: rules_def operations_lookup unary_op_def left_op_def right_op_def)
  moreover have "list_all (\<lambda>(k, d). exec_length d = 1 \<or> exec_length d = 2) operations"
    by (simp add: operations_def unary_op_def left_op_def right_op_def)
  moreover have "no_arity_error (evaluate st expression)"
    unfolding evaluate_bind
    by (rule no_arity_error_bind [OF Parser_no_arity_error(1)])
      (auto intro!: no_arity_error_bind evaluate_while_no_arity_error)
  ultimately show ?thesis by (simp add: no_arity_error_def)
qed


end
